theory Spec2Isabelle
  imports Main "HOL-Library.Sublist" "HOL-Library.List_Lexorder" "HOL-Library.Char_ord"
begin

section \<open>Python values and text\<close>

text \<open>
  The two scripts \<^verbatim>\<open>run_matrix.py\<close> (live mode) and \<^verbatim>\<open>generate_manifest.py\<close> (rescan mode)
  are embedded as HOL functions. Conventions of the embedding:
  \<^item> a Python \<^verbatim>\<open>str\<close> is a \<^typ>\<open>string\<close>: a list of 8-bit characters holding the UTF-8 encoding
    of the text (substring search, splitting on an ASCII separator and code-point order are
    the same on the encoding as on the code points);
  \<^item> whitespace and digits are the ASCII ones; the Unicode whitespace and digits beyond
    ASCII that \<^verbatim>\<open>str.strip\<close>, \<^verbatim>\<open>int\<close> and \<^verbatim>\<open>float\<close> also accept are outside the model;
  \<^item> a Python \<^verbatim>\<open>int\<close> is an \<^typ>\<open>int\<close>; a \<^verbatim>\<open>float\<close> read from text is the binary64 number
    nearest to the decimal value, a tie going to the even significand, so \<^verbatim>\<open>int(float(s))\<close>
    is the truncation of that number;
  \<^item> an exception is a value of \<open>py_error\<close>; a function that can raise returns a sum with
    the exception on the left;
  \<^item> writing to standard output and to the manifest file is assumed to succeed.
\<close>

datatype py_error =
  ValueError | IndexError | KeyError | TypeError | OverflowError
  | OSError | UnicodeDecodeError | JSONDecodeError

text \<open>\<^verbatim>\<open>sub in s\<close> on strings.\<close>

fun contains :: "string \<Rightarrow> string \<Rightarrow> bool" where
  "contains sub [] = (sub = [])"
| "contains sub (c # cs) = (prefix sub (c # cs) \<or> contains sub cs)"

text \<open>
  \<^verbatim>\<open>s.split(sep)\<close> for a non-empty separator: the pieces between the non-overlapping
  occurrences of \<open>sep\<close>, found from the left. Every call of the scripts passes a non-empty
  literal separator (Python raises on an empty one).
\<close>

fun split_acc :: "string \<Rightarrow> string \<Rightarrow> string \<Rightarrow> string list" where
  "split_acc sep cur [] = [cur]"
| "split_acc sep cur (c # cs) =
     (if prefix sep (c # cs) then cur # split_acc sep [] (drop (length sep - 1) cs)
      else split_acc sep (cur @ [c]) cs)"

definition py_split :: "string \<Rightarrow> string \<Rightarrow> string list" where
  "py_split sep s = split_acc sep [] s"

text \<open>\<^verbatim>\<open>xs[i]\<close> for a non-negative index.\<close>

definition py_index :: "'a list \<Rightarrow> nat \<Rightarrow> py_error + 'a" where
  "py_index xs i = (if i < length xs then Inr (xs ! i) else Inl IndexError)"

definition is_space :: "char \<Rightarrow> bool" where
  "is_space c = (let n = (of_char c :: nat) in (9 \<le> n \<and> n \<le> 13) \<or> (28 \<le> n \<and> n \<le> 32))"

definition py_strip :: "string \<Rightarrow> string" where
  "py_strip s = rev (dropWhile is_space (rev (dropWhile is_space s)))"

definition is_digit :: "char \<Rightarrow> bool" where
  "is_digit c = (let n = (of_char c :: nat) in 48 \<le> n \<and> n \<le> 57)"

definition digit_val :: "char \<Rightarrow> int" where
  "digit_val c = of_char c - 48"

text \<open>
  A run of decimal digits as \<^verbatim>\<open>int\<close> and \<^verbatim>\<open>float\<close> accept it: single underscores are
  allowed between two digits.
\<close>

definition digit_seq :: "string \<Rightarrow> bool" where
  "digit_seq s = (s \<noteq> [] \<and> is_digit (hd s) \<and> is_digit (last s)
     \<and> list_all (\<lambda>c. is_digit c \<or> c = CHR ''_'') s \<and> \<not> contains ''__'' s)"

definition digits_val :: "string \<Rightarrow> int" where
  "digits_val s = foldl (\<lambda>a c. 10 * a + digit_val c) 0 (filter is_digit s)"

definition split_sign :: "string \<Rightarrow> bool \<times> string" where
  "split_sign s = (case s of
       c # cs \<Rightarrow> if c = CHR ''-'' then (True, cs) else if c = CHR ''+'' then (False, cs) else (False, s)
     | [] \<Rightarrow> (False, s))"

text \<open>
  \<^verbatim>\<open>int\<close> and \<^verbatim>\<open>float\<close> skip the whitespace of C at both ends of their argument: tab to
  carriage return and the space. The separators 28 to 31, which \<^verbatim>\<open>str.strip\<close> removes, are
  not skipped.
\<close>

definition is_c_space :: "char \<Rightarrow> bool" where
  "is_c_space c = (let n = (of_char c :: nat) in (9 \<le> n \<and> n \<le> 13) \<or> n = 32)"

definition c_strip :: "string \<Rightarrow> string" where
  "c_strip s = rev (dropWhile is_c_space (rev (dropWhile is_c_space s)))"

text \<open>
  \<^verbatim>\<open>int(s)\<close> on a string, base ten. A string of more than 4300 digits is refused, which is
  the default limit of the interpreter on the conversion.
\<close>

definition py_int :: "string \<Rightarrow> py_error + int" where
  "py_int s = (let (neg, body) = split_sign (c_strip s) in
     if digit_seq body \<and> length (filter is_digit body) \<le> 4300
     then Inr (if neg then - digits_val body else digits_val body)
     else Inl ValueError)"

text \<open>
  A \<^verbatim>\<open>float\<close> is a binary64 number: \<open>Finite neg m q\<close> stands for the value \<open>m * 2 ^ q\<close> with
  the sign \<open>neg\<close>, where \<open>0 \<le> m \<le> 2 ^ 53\<close> and \<open>- 1074 \<le> q\<close>.
\<close>

datatype py_float = Finite bool int int | Infinity | NaN

text \<open>\<^verbatim>\<open>n.bit_length()\<close>\<close>

function bit_length :: "int \<Rightarrow> int" where
  "bit_length n = (if n \<le> 0 then 0 else 1 + bit_length (n div 2))"
  by pat_completeness auto
termination
  by (relation "measure nat") auto

declare bit_length.simps [simp del]

text \<open>The quotient \<open>a / b\<close> rounded to the nearest integer, a tie to the even one.\<close>

definition rne_div :: "int \<Rightarrow> int \<Rightarrow> int" where
  "rne_div a b = (let k = a div b; r = a mod b in
     if 2 * r < b then k
     else if b < 2 * r then k + 1
     else if even k then k else k + 1)"

text \<open>
  The exponent of the binary64 number nearest to \<open>num / den\<close>, for positive \<open>num\<close> and
  \<open>den\<close>: with \<open>l\<close> the integer part of the binary logarithm of the quotient, the
  significand has 53 bits when the exponent is \<open>l - 52\<close>; the exponent of the subnormal
  numbers is \<open>- 1074\<close>.
\<close>

definition binary_exponent :: "int \<Rightarrow> int \<Rightarrow> int" where
  "binary_exponent num den =
     (let d = bit_length num - bit_length den;
          l = (if 0 \<le> d then (if den * 2 ^ nat d \<le> num then d else d - 1)
               else (if den \<le> num * 2 ^ nat (- d) then d else d - 1))
      in max (l - 52) (- 1074))"

text \<open>
  The correctly rounded binary64 value of \<open>num / den\<close> with the sign \<open>neg\<close>, as the
  conversion of the interpreter gives it; a value that rounds to \<open>2 ^ 1024\<close> or more is
  infinite.
\<close>

definition round_binary64 :: "bool \<Rightarrow> int \<Rightarrow> int \<Rightarrow> py_float" where
  "round_binary64 neg num den =
     (if num = 0 then Finite neg 0 0
      else let q = binary_exponent num den;
               m = (if 0 \<le> q then rne_div num (den * 2 ^ nat q)
                    else rne_div (num * 2 ^ nat (- q)) den)
           in if 0 \<le> q \<and> 2 ^ 1024 \<le> m * 2 ^ nat q then Infinity else Finite neg m q)"

definition to_lower :: "char \<Rightarrow> char" where
  "to_lower c = (let n = (of_char c :: nat) in if 65 \<le> n \<and> n \<le> 90 then char_of (n + 32) else c)"

definition split_at_char :: "(char \<Rightarrow> bool) \<Rightarrow> string \<Rightarrow> string \<times> string option" where
  "split_at_char P s = (case dropWhile (\<lambda>c. \<not> P c) s of
       [] \<Rightarrow> (s, None)
     | _ # rest \<Rightarrow> (takeWhile (\<lambda>c. \<not> P c) s, Some rest))"

text \<open>
  \<^verbatim>\<open>float(s)\<close>: an optional sign, then \<^verbatim>\<open>inf\<close>, \<^verbatim>\<open>infinity\<close> or \<^verbatim>\<open>nan\<close> in any case, or a
  decimal numeral with an optional fraction and an optional exponent. The decimal value is
  \<open>m * 10 ^ e\<close> for the digits \<open>m\<close> of the numeral and the exponent \<open>e\<close> reduced by the
  number of digits of the fraction.
\<close>

definition py_float_of_str :: "string \<Rightarrow> py_error + py_float" where
  "py_float_of_str s = (let (neg, body) = split_sign (c_strip s); low = map to_lower body in
     if low = ''inf'' \<or> low = ''infinity'' then Inr Infinity
     else if low = ''nan'' then Inr NaN
     else let (mant, ex) = split_at_char (\<lambda>c. c = CHR ''e'' \<or> c = CHR ''E'') body;
              (ip, fp) = split_at_char (\<lambda>c. c = CHR ''.'') mant;
              frac = (case fp of None \<Rightarrow> [] | Some f \<Rightarrow> f);
              mant_ok = ((ip = [] \<or> digit_seq ip) \<and> (frac = [] \<or> digit_seq frac)
                          \<and> (ip \<noteq> [] \<or> frac \<noteq> []));
              exp10 = (case ex of None \<Rightarrow> Inr 0
                 | Some x \<Rightarrow> (let (eneg, ebody) = split_sign x in
                     if digit_seq ebody
                     then Inr (if eneg then - digits_val ebody else digits_val ebody)
                     else Inl ValueError))
          in case exp10 of
               Inl err \<Rightarrow> Inl err
             | Inr x \<Rightarrow>
                 if \<not> mant_ok then Inl ValueError
                 else let m = digits_val (ip @ frac);
                          e = x - int (length (filter is_digit frac))
                      in if 0 \<le> e then Inr (round_binary64 neg (m * 10 ^ nat e) 1)
                         else Inr (round_binary64 neg m (10 ^ nat (- e))))"

text \<open>\<^verbatim>\<open>int(x)\<close> on a float: truncation towards zero.\<close>

definition py_int_of_float :: "py_float \<Rightarrow> py_error + int" where
  "py_int_of_float x = (case x of
       Infinity \<Rightarrow> Inl OverflowError
     | NaN \<Rightarrow> Inl ValueError
     | Finite neg m q \<Rightarrow>
         (let t = (if 0 \<le> q then m * 2 ^ nat q else m div 2 ^ nat (- q))
          in Inr (if neg then - t else t)))"


text \<open>\<^verbatim>\<open>str(n)\<close> for an integer, as the f-strings of the command line use it.\<close>

fun str_nat :: "nat \<Rightarrow> string" where
  "str_nat n = (if n < 10 then [char_of (48 + n)]
     else str_nat (n div 10) @ [char_of (48 + n mod 10)])"

declare str_nat.simps [simp del]

definition py_str_int :: "int \<Rightarrow> string" where
  "py_str_int i = (if i < 0 then CHR ''-'' # str_nat (nat (- i)) else str_nat (nat i))"

text \<open>\<^verbatim>\<open>os.path.join(a, b)\<close> on POSIX paths.\<close>

definition os_path_join :: "string \<Rightarrow> string \<Rightarrow> string" where
  "os_path_join a b =
     (if b \<noteq> [] \<and> hd b = CHR ''/'' then b
      else if a = [] \<or> last a = CHR ''/'' then a @ b
      else a @ ''/'' @ b)"

definition newline :: string where
  "newline = [CHR 0x0A]"

text \<open>
  The values a parsed JSON document consists of, which are also the values of the cells of a
  manifest row. A number with a fraction or an exponent is kept as its literal text.
\<close>

datatype pyval =
  PNone | PBool bool | PInt int | PFloat string | PStr string
  | PList "pyval list" | PDict "(string \<times> pyval) list"

type_synonym row = "(string \<times> pyval) list"

section \<open>The summary parser\<close>

text \<open>
  \<^verbatim>\<open>extract_stats\<close> of \<^verbatim>\<open>run_matrix.py\<close> and \<^verbatim>\<open>parse_summary\<close> of \<^verbatim>\<open>generate_manifest.py\<close>
  have the same body: one loop over the lines for the completed count, then one loop with
  the flag \<^verbatim>\<open>in_ns_section\<close> for the three percentiles. They differ in the
  \<^verbatim>\<open>try\<close>/\<^verbatim>\<open>except\<close> that only \<^verbatim>\<open>extract_stats\<close> has. The loops below return, when a line
  raises, the exception together with the values the variables hold at that moment.
\<close>

definition LATENCY_NS :: string where
  "LATENCY_NS = ''Latency (ns):''"

definition LATENCY_US :: string where
  "LATENCY_US = ''Latency ('' @ [CHR 0xCE, CHR 0xBC] @ ''s):''"

text \<open>\<^verbatim>\<open>line.split(':')[1].strip()\<close>\<close>

definition line_field :: "string \<Rightarrow> py_error + string" where
  "line_field line = (case py_index (py_split '':'' line) 1 of
       Inl e \<Rightarrow> Inl e
     | Inr f \<Rightarrow> Inr (py_strip f))"

text \<open>\<^verbatim>\<open>int(line.split(':')[1].strip().split('/')[0])\<close>\<close>

definition parse_completed :: "string \<Rightarrow> py_error + int" where
  "parse_completed line = (case line_field line of
       Inl e \<Rightarrow> Inl e
     | Inr f \<Rightarrow> (case py_index (py_split ''/'' f) 0 of
           Inl e \<Rightarrow> Inl e
         | Inr g \<Rightarrow> py_int g))"

text \<open>\<^verbatim>\<open>int(float(line.split(':')[1].strip()))\<close>\<close>

definition parse_latency :: "string \<Rightarrow> py_error + int" where
  "parse_latency line = (case line_field line of
       Inl e \<Rightarrow> Inl e
     | Inr f \<Rightarrow> (case py_float_of_str f of
           Inl e \<Rightarrow> Inl e
         | Inr x \<Rightarrow> py_int_of_float x))"

fun completed_loop :: "string list \<Rightarrow> int \<Rightarrow> (py_error \<times> int) + int" where
  "completed_loop [] completed = Inr completed"
| "completed_loop (line # rest) completed =
     (if contains ''Completed:'' line then
        (case parse_completed line of
           Inl e \<Rightarrow> Inl (e, completed)
         | Inr v \<Rightarrow> completed_loop rest v)
      else completed_loop rest completed)"

type_synonym percentiles = "int \<times> int \<times> int"

fun latency_loop ::
  "string list \<Rightarrow> bool \<Rightarrow> percentiles \<Rightarrow> (py_error \<times> percentiles) + percentiles" where
  "latency_loop [] in_ns_section ps = Inr ps"
| "latency_loop (line # rest) in_ns_section (p50, p95, p99) =
     (if contains LATENCY_NS line then latency_loop rest True (p50, p95, p99)
      else if contains LATENCY_US line then latency_loop rest False (p50, p95, p99)
      else if in_ns_section then
        (if contains ''p50:'' line then
           (case parse_latency line of
              Inl e \<Rightarrow> Inl (e, (p50, p95, p99))
            | Inr v \<Rightarrow> latency_loop rest in_ns_section (v, p95, p99))
         else if contains ''p95:'' line then
           (case parse_latency line of
              Inl e \<Rightarrow> Inl (e, (p50, p95, p99))
            | Inr v \<Rightarrow> latency_loop rest in_ns_section (p50, v, p99))
         else if contains ''p99:'' line then
           (case parse_latency line of
              Inl e \<Rightarrow> Inl (e, (p50, p95, p99))
            | Inr v \<Rightarrow> latency_loop rest in_ns_section (p50, p95, v))
         else latency_loop rest in_ns_section (p50, p95, p99))
      else latency_loop rest in_ns_section (p50, p95, p99))"

text \<open>
  The nanosecond section of a list of lines: the lines the loop meets while
  \<^verbatim>\<open>in_ns_section\<close> is true, the header lines themselves left out.
\<close>

fun ns_section :: "bool \<Rightarrow> string list \<Rightarrow> string list" where
  "ns_section in_ns_section [] = []"
| "ns_section in_ns_section (line # rest) =
     (if contains LATENCY_NS line then ns_section True rest
      else if contains LATENCY_US line then ns_section False rest
      else if in_ns_section then line # ns_section in_ns_section rest
      else ns_section in_ns_section rest)"

text \<open>
  \<open>taken_from parse P lines init v\<close>: the value \<open>v\<close> is what \<open>parse\<close> gives on the last of the
  \<open>lines\<close> that satisfies \<open>P\<close>, or \<open>init\<close> when no line satisfies \<open>P\<close>.
\<close>

definition taken_from ::
  "(string \<Rightarrow> py_error + int) \<Rightarrow> (string \<Rightarrow> bool) \<Rightarrow> string list \<Rightarrow> int \<Rightarrow> int \<Rightarrow> bool" where
  "taken_from parse P lines init v = (case find P (rev lines) of
       None \<Rightarrow> v = init
     | Some l \<Rightarrow> parse l = Inr v)"

type_synonym stats = "int \<times> int \<times> int \<times> int"

text \<open>The body shared by both parsers, on the text read from the file.\<close>

definition summary_scan :: "string \<Rightarrow> (py_error \<times> stats) + stats" where
  "summary_scan content = (let lines = py_split newline content in
     case completed_loop lines 0 of
       Inl (e, completed) \<Rightarrow> Inl (e, (0, 0, 0, completed))
     | Inr completed \<Rightarrow>
         (case latency_loop lines False (0, 0, 0) of
            Inl (e, (p50, p95, p99)) \<Rightarrow> Inl (e, (p50, p95, p99, completed))
          | Inr (p50, p95, p99) \<Rightarrow> Inr (p50, p95, p99, completed)))"

text \<open>
  A file as the parser meets it: \<open>Inl e\<close> when opening or reading it raises \<open>e\<close>, \<open>Inr text\<close>
  when it reads as \<open>text\<close>.

  \<^verbatim>\<open>parse_summary\<close> (rescan mode) has no handler: every exception leaves it.
\<close>

definition parse_summary :: "py_error + string \<Rightarrow> py_error + stats" where
  "parse_summary file = (case file of
       Inl e \<Rightarrow> Inl e
     | Inr content \<Rightarrow> (case summary_scan content of
           Inl (e, partial) \<Rightarrow> Inl e
         | Inr t \<Rightarrow> Inr t))"

text \<open>
  \<^verbatim>\<open>extract_stats\<close> (live mode) catches every exception, prints a warning and returns the
  four variables as they are. The first component is the exception of the warning, if one
  was printed.
\<close>

definition extract_stats_run :: "py_error + string \<Rightarrow> py_error option \<times> stats" where
  "extract_stats_run file = (case file of
       Inl e \<Rightarrow> (Some e, (0, 0, 0, 0))
     | Inr content \<Rightarrow> (case summary_scan content of
           Inl (e, partial) \<Rightarrow> (Some e, partial)
         | Inr t \<Rightarrow> (None, t)))"

definition extract_stats :: "py_error + string \<Rightarrow> stats" where
  "extract_stats file = snd (extract_stats_run file)"


section \<open>The manifest writer\<close>

text \<open>
  \<^verbatim>\<open>csv.DictWriter(f, fieldnames=fieldnames)\<close> with its defaults \<^verbatim>\<open>restval=''\<close> and
  \<^verbatim>\<open>extrasaction='raise'\<close>: a row with a key outside \<open>fieldnames\<close> raises; otherwise the row
  has one cell per field name, the empty string where the dictionary has no such key. The
  manifest is kept as its header and its rows of cells, before the cells are rendered as
  delimited text.
\<close>

record manifest =
  header :: "string list"
  data_rows :: "pyval list list"

definition row_cells :: "string list \<Rightarrow> row \<Rightarrow> pyval list" where
  "row_cells fieldnames rowdict =
     map (\<lambda>key. case map_of rowdict key of None \<Rightarrow> PStr [] | Some v \<Rightarrow> v) fieldnames"

definition dict_to_list :: "string list \<Rightarrow> row \<Rightarrow> py_error + pyval list" where
  "dict_to_list fieldnames rowdict =
     (if list_ex (\<lambda>k. k \<notin> set fieldnames) (map fst rowdict) then Inl ValueError
      else Inr (row_cells fieldnames rowdict))"

text \<open>
  \<^verbatim>\<open>writer.writerows(results)\<close>: the rows written before the first row that raises, and the
  exception if there is one.
\<close>

fun writerows :: "string list \<Rightarrow> row list \<Rightarrow> pyval list list \<times> py_error option" where
  "writerows fieldnames [] = ([], None)"
| "writerows fieldnames (r # rs) = (case dict_to_list fieldnames r of
       Inl e \<Rightarrow> ([], Some e)
     | Inr cells \<Rightarrow> (case writerows fieldnames rs of (written, err) \<Rightarrow> (cells # written, err)))"

definition write_csv :: "string list \<Rightarrow> row list \<Rightarrow> manifest \<times> py_error option" where
  "write_csv fieldnames results = (case writerows fieldnames results of
       (written, err) \<Rightarrow> (\<lparr>header = fieldnames, data_rows = written\<rparr>, err))"

text \<open>
  The summary table both scripts print after the manifest: the format specifications
  \<^verbatim>\<open>:<10\<close> and \<^verbatim>\<open>:<5\<close> on \<^verbatim>\<open>r['workload']\<close> and \<^verbatim>\<open>r['outstanding']\<close> raise \<^verbatim>\<open>TypeError\<close> on
  \<^verbatim>\<open>None\<close>, a list or a dictionary; the percentiles are integers.
\<close>

definition formattable :: "pyval option \<Rightarrow> py_error option" where
  "formattable v = (case v of
       None \<Rightarrow> Some KeyError
     | Some PNone \<Rightarrow> Some TypeError
     | Some (PList xs) \<Rightarrow> Some TypeError
     | Some (PDict kvs) \<Rightarrow> Some TypeError
     | Some other \<Rightarrow> None)"

fun print_table :: "row list \<Rightarrow> py_error option" where
  "print_table [] = None"
| "print_table (r # rs) = (case map_of r ''req_bytes'' of
       None \<Rightarrow> Some KeyError
     | Some sz \<Rightarrow> (case formattable (map_of r ''workload'') of
           Some e \<Rightarrow> Some e
         | None \<Rightarrow> (case formattable (map_of r ''outstanding'') of
               Some e \<Rightarrow> Some e
             | None \<Rightarrow> print_table rs)))"

text \<open>How the process ends, and the exit status the operating system sees.\<close>

datatype finish = Normal | SysExit int | Uncaught py_error

fun exit_status :: "finish \<Rightarrow> int" where
  "exit_status Normal = 0"
| "exit_status (SysExit n) = n"
| "exit_status (Uncaught e) = 1"

text \<open>The reports and diagnostics of the two scripts, in the order they are printed.\<close>

datatype event =
  TotalRuns nat
  | Invoke nat "string list"
  | RunFailed nat int
  | NoRunId nat
  | RunCompleted nat string
  | ParseWarning py_error
  | RunSkipped nat
  | Skipping string
  | Processed string
  | ErrorProcessing string py_error
  | ManifestWritten
  | NoSuccessfulRuns

text \<open>The invocations of the engine a log records, in order: run number and command.\<close>

fun invocations :: "event list \<Rightarrow> (nat \<times> string list) list" where
  "invocations [] = []"
| "invocations (Invoke n cmd # evs) = (n, cmd) # invocations evs"
| "invocations (ev # evs) = invocations evs"

record outcome =
  log :: "event list"
  written :: "manifest option"
  ending :: finish

section \<open>Live mode: \<^verbatim>\<open>run_matrix.py\<close>\<close>

definition OUT_DIR :: string where
  "OUT_DIR = ''out/sim''"

definition LINK_RATE :: string where
  "LINK_RATE = ''10Gbps''"

definition LINK_DELAY :: string where
  "LINK_DELAY = ''50us''"

definition MTU :: int where
  "MTU = 1500"

definition QDISC :: string where
  "QDISC = ''none''"

definition WORKLOADS :: "string list" where
  "WORKLOADS = [''pingpong'', ''rpc'']"

definition OUTSTANDING :: "int list" where
  "OUTSTANDING = [1, 8, 32]"

definition SIZES :: "(int \<times> int) list" where
  "SIZES = [(256, 256), (1024, 1024), (4096, 4096)]"

definition N_REQ :: int where
  "N_REQ = 10000"

text \<open>
  What the script meets outside itself. A call of \<^verbatim>\<open>subprocess.run\<close> with \<^verbatim>\<open>check=True\<close>,
  \<^verbatim>\<open>capture_output=True\<close> and \<^verbatim>\<open>text=True\<close> either gets the exit status of the engine and
  its captured output as text, \<open>Exited status out err\<close>, or raises an exception other than
  \<^verbatim>\<open>CalledProcessError\<close>, \<open>Raised e status\<close>: the executable cannot be started, and there is
  no exit status, or the engine has exited with \<open>status\<close> and its output is not text in the
  encoding of the locale, which raises \<^verbatim>\<open>UnicodeDecodeError\<close> before the exit status is
  looked at. The engine and the file system have state, so the answers are indexed by the
  number of the run.
\<close>

datatype proc_outcome = Exited int string string | Raised py_error "int option"

record world =
  ns3_root :: string
  engine :: "nat \<Rightarrow> string list \<Rightarrow> proc_outcome"
  read_file :: "nat \<Rightarrow> string \<Rightarrow> py_error + string"
  elapsed :: "nat \<Rightarrow> string"

definition build_cmd :: "string \<Rightarrow> string \<Rightarrow> int \<Rightarrow> int \<Rightarrow> int \<Rightarrow> string list" where
  "build_cmd root workload outstanding req_bytes rsp_bytes =
     [os_path_join (os_path_join root ''..'') ''ns3'',
      ''run'',
      ''hd_runner'',
      ''--'',
      ''--linkRate='' @ LINK_RATE,
      ''--linkDelay='' @ LINK_DELAY,
      ''--mtu='' @ py_str_int MTU,
      ''--qdisc='' @ QDISC,
      ''--workload='' @ workload,
      ''--nReq='' @ py_str_int N_REQ,
      ''--outstanding='' @ py_str_int outstanding,
      ''--reqBytes='' @ py_str_int req_bytes,
      ''--rspBytes='' @ py_str_int rsp_bytes,
      ''--enableEgressHook=1'',
      ''--enableIngressHook=1'',
      ''--runId=auto'',
      ''--outDir='' @ OUT_DIR]"

text \<open>\<^verbatim>\<open>line.split(marker)[1].strip()\<close>\<close>

definition marker_value :: "string \<Rightarrow> string \<Rightarrow> py_error + string" where
  "marker_value marker line = (case py_index (py_split marker line) 1 of
       Inl e \<Rightarrow> Inl e
     | Inr v \<Rightarrow> Inr (py_strip v))"

text \<open>The loop over the lines of the captured standard output.\<close>

fun scan_stdout ::
  "string list \<Rightarrow> string option \<times> string option \<Rightarrow> py_error + (string option \<times> string option)" where
  "scan_stdout [] ids = Inr ids"
| "scan_stdout (line # rest) (run_id, out_path) =
     (if contains ''Run ID:'' line then
        (case marker_value ''Run ID:'' line of
           Inl e \<Rightarrow> Inl e
         | Inr v \<Rightarrow> scan_stdout rest (Some v, out_path))
      else if contains ''Results written to:'' line then
        (case marker_value ''Results written to:'' line of
           Inl e \<Rightarrow> Inl e
         | Inr v \<Rightarrow> scan_stdout rest (run_id, Some v))
      else scan_stdout rest (run_id, out_path))"

text \<open>\<^verbatim>\<open>not x\<close> for \<^verbatim>\<open>x\<close> that is \<^verbatim>\<open>None\<close> or a string.\<close>

definition falsy :: "string option \<Rightarrow> bool" where
  "falsy x = (case x of None \<Rightarrow> True | Some s \<Rightarrow> s = [])"

definition live_row ::
  "world \<Rightarrow> nat \<Rightarrow> string \<Rightarrow> string \<Rightarrow> string \<Rightarrow> int \<Rightarrow> int \<Rightarrow> int \<Rightarrow> stats \<Rightarrow> row" where
  "live_row w run_num run_id out_path workload outstanding req_bytes rsp_bytes st =
     (case st of (p50, p95, p99, completed) \<Rightarrow>
       [(''run_id'', PStr run_id),
        (''workload'', PStr workload),
        (''outstanding'', PInt outstanding),
        (''req_bytes'', PInt req_bytes),
        (''rsp_bytes'', PInt rsp_bytes),
        (''linkRate'', PStr LINK_RATE),
        (''linkDelay'', PStr LINK_DELAY),
        (''mtu'', PInt MTU),
        (''qdisc'', PStr QDISC),
        (''p50_ns'', PInt p50),
        (''p95_ns'', PInt p95),
        (''p99_ns'', PInt p99),
        (''completed'', PInt completed),
        (''out_dir'', PStr out_path),
        (''elapsed_s'', PStr (elapsed w run_num))])"

text \<open>
  \<^verbatim>\<open>run_experiment\<close>: \<open>Inl e\<close> when an exception leaves it, otherwise what it printed and the
  dictionary it returns (\<open>None\<close> for Python's \<^verbatim>\<open>None\<close>).
\<close>

definition run_experiment ::
  "world \<Rightarrow> string \<Rightarrow> int \<Rightarrow> int \<Rightarrow> int \<Rightarrow> nat \<Rightarrow> nat \<Rightarrow> py_error + (event list \<times> row option)" where
  "run_experiment w workload outstanding req_bytes rsp_bytes run_num total_runs =
     (let cmd = build_cmd (ns3_root w) workload outstanding req_bytes rsp_bytes in
      case engine w run_num cmd of
        Raised e status \<Rightarrow> Inl e
      | Exited status out err \<Rightarrow>
          if status \<noteq> 0 then Inr ([Invoke run_num cmd, RunFailed run_num status], None)
          else (case scan_stdout (py_split newline out) (None, None) of
              Inl e \<Rightarrow> Inl e
            | Inr (run_id, out_path) \<Rightarrow>
                if falsy run_id \<or> falsy out_path
                then Inr ([Invoke run_num cmd, NoRunId run_num], None)
                else (case (run_id, out_path) of
                    (Some rid, Some opath) \<Rightarrow>
                      (let summary_path = os_path_join opath ''summary.txt'';
                           (warning, st) = extract_stats_run (read_file w run_num summary_path)
                       in Inr ([Invoke run_num cmd, RunCompleted run_num rid]
                                 @ (case warning of None \<Rightarrow> [] | Some e \<Rightarrow> [ParseWarning e]),
                               Some (live_row w run_num rid opath workload outstanding
                                       req_bytes rsp_bytes st)))
                  | _ \<Rightarrow> Inr ([Invoke run_num cmd, NoRunId run_num], None))))"

text \<open>
  The three nested \<^verbatim>\<open>for\<close> loops of \<^verbatim>\<open>main\<close> visit the parameter sets in this order.
\<close>

type_synonym param_set = "string \<times> int \<times> int \<times> int"

definition param_matrix ::
  "string list \<Rightarrow> int list \<Rightarrow> (int \<times> int) list \<Rightarrow> param_set list" where
  "param_matrix workloads outstandings sizes =
     concat (map (\<lambda>workload.
       concat (map (\<lambda>outstanding.
         map (\<lambda>(req_bytes, rsp_bytes). (workload, outstanding, req_bytes, rsp_bytes)) sizes)
       outstandings)) workloads)"

record loop_state =
  run_num :: nat
  results :: "row list"
  printed :: "event list"

text \<open>
  The body of the innermost loop, repeated over the parameter sets that remain. An exception
  that leaves \<^verbatim>\<open>run_experiment\<close> ends the loop and the process; the command of the run
  has been printed before.
\<close>

fun run_all :: "world \<Rightarrow> nat \<Rightarrow> param_set list \<Rightarrow> loop_state \<Rightarrow> py_error option \<times> loop_state" where
  "run_all w total_runs [] st = (None, st)"
| "run_all w total_runs ((workload, outstanding, req_bytes, rsp_bytes) # rest) st =
     (let n = run_num st + 1 in
      case run_experiment w workload outstanding req_bytes rsp_bytes n total_runs of
        Inl e \<Rightarrow>
          (Some e,
           \<lparr>run_num = n, results = results st,
            printed = printed st @
              [Invoke n (build_cmd (ns3_root w) workload outstanding req_bytes rsp_bytes)]\<rparr>)
      | Inr (evs, Some r) \<Rightarrow>
          run_all w total_runs rest
            \<lparr>run_num = n, results = results st @ [r], printed = printed st @ evs\<rparr>
      | Inr (evs, None) \<Rightarrow>
          run_all w total_runs rest
            \<lparr>run_num = n, results = results st, printed = printed st @ evs @ [RunSkipped n]\<rparr>)"


definition live_fieldnames :: "string list" where
  "live_fieldnames =
     [''run_id'', ''workload'', ''outstanding'', ''req_bytes'', ''rsp_bytes'', ''linkRate'',
      ''linkDelay'', ''mtu'', ''qdisc'', ''p50_ns'', ''p95_ns'', ''p99_ns'', ''completed'',
      ''elapsed_s'', ''out_dir'']"

definition write_manifest :: "row list \<Rightarrow> manifest \<times> py_error option" where
  "write_manifest rs = write_csv live_fieldnames rs"

text \<open>
  \<^verbatim>\<open>main\<close> of \<^verbatim>\<open>run_matrix.py\<close>, with the three dimension lists as arguments: first the
  count and the loops, then the manifest or the exit.
\<close>

definition run_loops ::
  "world \<Rightarrow> string list \<Rightarrow> int list \<Rightarrow> (int \<times> int) list \<Rightarrow> py_error option \<times> loop_state" where
  "run_loops w workloads outstandings sizes =
     (let total_runs = length workloads * length outstandings * length sizes
      in run_all w total_runs (param_matrix workloads outstandings sizes)
           \<lparr>run_num = 0, results = [], printed = [TotalRuns total_runs]\<rparr>)"

definition run_matrix ::
  "world \<Rightarrow> string list \<Rightarrow> int list \<Rightarrow> (int \<times> int) list \<Rightarrow> outcome" where
  "run_matrix w workloads outstandings sizes =
     (case run_loops w workloads outstandings sizes of
        (Some e, st) \<Rightarrow> \<lparr>log = printed st, written = None, ending = Uncaught e\<rparr>
      | (None, st) \<Rightarrow>
          if results st \<noteq> [] then
            (case write_manifest (results st) of
               (m, Some e) \<Rightarrow> \<lparr>log = printed st, written = Some m, ending = Uncaught e\<rparr>
             | (m, None) \<Rightarrow>
                 (case print_table (results st) of
                    Some e \<Rightarrow> \<lparr>log = printed st @ [ManifestWritten], written = Some m,
                                ending = Uncaught e\<rparr>
                  | None \<Rightarrow> \<lparr>log = printed st @ [ManifestWritten], written = Some m,
                              ending = Normal\<rparr>))
          else \<lparr>log = printed st @ [NoSuccessfulRuns], written = None, ending = SysExit 1\<rparr>)"

definition main_live :: "world \<Rightarrow> outcome" where
  "main_live w = run_matrix w WORKLOADS OUTSTANDING SIZES"

section \<open>Rescan mode: \<^verbatim>\<open>generate_manifest.py\<close>\<close>

text \<open>
  An entry of the result root: something that is not a directory, or a directory with what
  \<^verbatim>\<open>config.json\<close> and \<^verbatim>\<open>summary.txt\<close> are in it. \<open>None\<close> is a path that does not exist;
  \<open>Some (Inl e)\<close> a path that exists and raises \<open>e\<close> when it is opened, read or, for the
  configuration, decoded by \<^verbatim>\<open>json.load\<close>; \<open>Some (Inr x)\<close> a file with the text, or the decoded
  JSON value, \<open>x\<close>.
\<close>

datatype node =
  NotADirectory
  | Directory "(py_error + pyval) option" "(py_error + string) option"

definition RESCAN_OUT_DIR :: string where
  "RESCAN_OUT_DIR = ''../out/sim''"

text \<open>\<^verbatim>\<open>config[key]\<close>\<close>

definition py_getitem :: "pyval \<Rightarrow> string \<Rightarrow> py_error + pyval" where
  "py_getitem v key = (case v of
       PDict kvs \<Rightarrow> (case map_of kvs key of None \<Rightarrow> Inl KeyError | Some x \<Rightarrow> Inr x)
     | _ \<Rightarrow> Inl TypeError)"

text \<open>
  The dictionary display evaluates its entries in order; the first \<^verbatim>\<open>config[key]\<close> that
  raises ends it.
\<close>

fun config_items :: "pyval \<Rightarrow> (string \<times> string) list \<Rightarrow> py_error + row" where
  "config_items config [] = Inr []"
| "config_items config ((column, key) # rest) = (case py_getitem config key of
       Inl e \<Rightarrow> Inl e
     | Inr v \<Rightarrow> (case config_items config rest of
           Inl e \<Rightarrow> Inl e
         | Inr items \<Rightarrow> Inr ((column, v) # items)))"

definition config_columns :: "(string \<times> string) list" where
  "config_columns =
     [(''run_id'', ''runId''), (''workload'', ''workload''), (''outstanding'', ''outstanding''),
      (''req_bytes'', ''reqBytes''), (''rsp_bytes'', ''rspBytes''), (''linkRate'', ''linkRate''),
      (''linkDelay'', ''linkDelay''), (''mtu'', ''mtu''), (''qdisc'', ''qdisc'')]"

text \<open>The body of the \<^verbatim>\<open>try\<close> block: \<open>Inl e\<close> when it raises, else the appended dictionary.\<close>

definition rescan_row ::
  "string \<Rightarrow> py_error + pyval \<Rightarrow> py_error + string \<Rightarrow> py_error + row" where
  "rescan_row run_path config_file summary_file = (case config_file of
       Inl e \<Rightarrow> Inl e
     | Inr config \<Rightarrow> (case parse_summary summary_file of
           Inl e \<Rightarrow> Inl e
         | Inr (p50, p95, p99, completed) \<Rightarrow> (case config_items config config_columns of
               Inl e \<Rightarrow> Inl e
             | Inr items \<Rightarrow> Inr (items @
                 [(''p50_ns'', PInt p50), (''p95_ns'', PInt p95), (''p99_ns'', PInt p99),
                  (''completed'', PInt completed), (''out_dir'', PStr run_path)]))))"

text \<open>One iteration of the loop over the sorted listing: what it prints and appends.\<close>

definition process_dir :: "string \<Rightarrow> node \<Rightarrow> event list \<times> row option" where
  "process_dir run_dir nd = (let run_path = os_path_join RESCAN_OUT_DIR run_dir in
     case nd of
       NotADirectory \<Rightarrow> ([], None)
     | Directory config_file summary_file \<Rightarrow> (case (config_file, summary_file) of
           (Some c, Some s) \<Rightarrow> (case rescan_row run_path c s of
               Inl e \<Rightarrow> ([ErrorProcessing run_dir e], None)
             | Inr r \<Rightarrow> ([Processed run_dir], Some r))
         | _ \<Rightarrow> ([Skipping run_dir], None)))"

fun rescan_loop :: "(string \<times> node) list \<Rightarrow> event list \<times> row list" where
  "rescan_loop [] = ([], [])"
| "rescan_loop ((run_dir, nd) # rest) =
     (case process_dir run_dir nd of (evs, r) \<Rightarrow>
        (case rescan_loop rest of (evs', rs) \<Rightarrow>
           (evs @ evs', (case r of None \<Rightarrow> [] | Some x \<Rightarrow> [x]) @ rs)))"

definition rescan_fieldnames :: "string list" where
  "rescan_fieldnames =
     [''run_id'', ''workload'', ''outstanding'', ''req_bytes'', ''rsp_bytes'', ''linkRate'',
      ''linkDelay'', ''mtu'', ''qdisc'', ''p50_ns'', ''p95_ns'', ''p99_ns'', ''completed'',
      ''out_dir'']"

text \<open>
  \<^verbatim>\<open>main\<close> of \<^verbatim>\<open>generate_manifest.py\<close>. The argument is what \<^verbatim>\<open>os.listdir(OUT_DIR)\<close> gives:
  an exception when the result root cannot be listed, otherwise its entries, each name once.
\<close>

definition main_rescan :: "py_error + (string \<times> node) list \<Rightarrow> outcome" where
  "main_rescan listing = (case listing of
       Inl e \<Rightarrow> \<lparr>log = [], written = None, ending = Uncaught e\<rparr>
     | Inr entries \<Rightarrow>
         (case rescan_loop (sort_key fst entries) of (evs, rs) \<Rightarrow>
            (case write_csv rescan_fieldnames rs of
               (m, Some e) \<Rightarrow> \<lparr>log = evs, written = Some m, ending = Uncaught e\<rparr>
             | (m, None) \<Rightarrow>
                 (case print_table rs of
                    Some e \<Rightarrow> \<lparr>log = evs @ [ManifestWritten], written = Some m,
                                ending = Uncaught e\<rparr>
                  | None \<Rightarrow> \<lparr>log = evs @ [ManifestWritten], written = Some m,
                              ending = Normal\<rparr>))))"


section \<open>Sample artifacts\<close>

text \<open>
  A summary file with both latency sections, as the interface of the engine describes it,
  and the configuration record of a run.
\<close>

definition sample_summary :: string where
  "sample_summary =
     ''Completed: 9000/10000'' @ newline @
     ''Latency (ns):'' @ newline @
     ''p50: 1234.0'' @ newline @
     ''p95: 5678.0'' @ newline @
     ''p99: 9999.0'' @ newline @
     LATENCY_US @ newline @
     ''p50: 1.234'' @ newline @
     ''p95: 5.678'' @ newline @
     ''p99: 9.999'' @ newline"

text \<open>
  An engine whose second invocation exits with status 1 while the others report a run
  identifier and a result directory, and an engine that always exits with status 1.
\<close>

definition sample_stdout :: "string \<Rightarrow> string" where
  "sample_stdout run_id =
     ''Run ID: '' @ run_id @ newline @ ''Results written to: out/sim/'' @ run_id @ newline"

definition sample_world :: world where
  "sample_world =
     \<lparr>ns3_root = ''/ns-3/scratch'',
      engine = (\<lambda>n cmd.
        if n = 2 then Exited 1 [] ''failed''
        else if n = 1 then Exited 0 (sample_stdout ''run-one'') []
        else Exited 0 (sample_stdout ''run-next'') []),
      read_file = (\<lambda>n path. Inr sample_summary),
      elapsed = (\<lambda>n. ''0.5'')\<rparr>"

definition failing_world :: world where
  "failing_world =
     \<lparr>ns3_root = ''/ns-3/scratch'',
      engine = (\<lambda>n cmd. Exited 1 [] ''failed''),
      read_file = (\<lambda>n path. Inl OSError),
      elapsed = (\<lambda>n. ''0.1'')\<rparr>"



definition sample_config :: "string \<Rightarrow> pyval" where
  "sample_config run_id =
     PDict [(''runId'', PStr run_id), (''workload'', PStr ''rpc''), (''outstanding'', PInt 8),
            (''reqBytes'', PInt 256), (''rspBytes'', PInt 256), (''linkRate'', PStr ''10Gbps''),
            (''linkDelay'', PStr ''50us''), (''mtu'', PInt 1500), (''qdisc'', PStr ''none'')]"

section \<open>Evaluating the conversions\<close>

lemmas number_defs =
  py_int_def c_strip_def is_c_space_def split_sign_def digit_seq_def is_digit_def
  digits_val_def digit_val_def py_float_of_str_def to_lower_def split_at_char_def
  round_binary64_def binary_exponent_def rne_div_def bit_length.simps py_int_of_float_def

section \<open>Rows and columns\<close>

lemma writerows_cells:
  "\<forall>r\<in>set rs. set (map fst r) \<subseteq> set fs \<Longrightarrow>
   writerows fs rs = (map (row_cells fs) rs, None)"
  by (induction rs) (auto simp: dict_to_list_def list_ex_iff)

lemma config_items_keys:
  "config_items config cols = Inr items \<Longrightarrow> map fst items = map fst cols"
  by (induction cols arbitrary: items) (auto split: sum.splits)

lemma rescan_row_keys:
  "rescan_row run_path c s = Inr r \<Longrightarrow> map fst r = rescan_fieldnames"
  by (auto simp: rescan_row_def rescan_fieldnames_def config_columns_def
      dest!: config_items_keys split: sum.splits)

lemma process_dir_keys:
  "process_dir d nd = (evs, Some r) \<Longrightarrow> map fst r = rescan_fieldnames"
  by (auto simp: process_dir_def Let_def dest: rescan_row_keys
      split: node.splits option.splits sum.splits)

lemma rescan_loop_keys:
  "r \<in> set (snd (rescan_loop es)) \<Longrightarrow> map fst r = rescan_fieldnames"
proof (induction es arbitrary: r)
  case Nil
  then show ?case by simp
next
  case (Cons e es)
  obtain d nd where e: "e = (d, nd)" by (cases e)
  obtain evs x where p: "process_dir d nd = (evs, x)" by (cases "process_dir d nd")
  obtain evs' rs where l: "rescan_loop es = (evs', rs)" by (cases "rescan_loop es")
  from Cons.prems e p l have "r \<in> set (case x of None \<Rightarrow> [] | Some y \<Rightarrow> [y]) \<or> r \<in> set rs"
    by auto
  then show ?case
  proof
    assume "r \<in> set (case x of None \<Rightarrow> [] | Some y \<Rightarrow> [y])"
    then have "x = Some r" by (cases x) auto
    with p show ?thesis by (auto dest: process_dir_keys)
  next
    assume "r \<in> set rs"
    with Cons.IH l show ?thesis by simp
  qed
qed

lemma live_row_keys:
  "map fst (live_row w n rid opath wl ou rq rs st) =
     [''run_id'', ''workload'', ''outstanding'', ''req_bytes'', ''rsp_bytes'', ''linkRate'',
      ''linkDelay'', ''mtu'', ''qdisc'', ''p50_ns'', ''p95_ns'', ''p99_ns'', ''completed'',
      ''out_dir'', ''elapsed_s'']"
  by (cases st) (simp add: live_row_def)

lemma run_experiment_key_list:
  "run_experiment w wl ou rq rs n t = Inr (evs, Some r) \<Longrightarrow>
   map fst r = [''run_id'', ''workload'', ''outstanding'', ''req_bytes'', ''rsp_bytes'',
      ''linkRate'', ''linkDelay'', ''mtu'', ''qdisc'', ''p50_ns'', ''p95_ns'', ''p99_ns'',
      ''completed'', ''out_dir'', ''elapsed_s'']"
  by (auto simp: run_experiment_def Let_def live_row_keys
      split: proc_outcome.splits if_splits sum.splits option.splits prod.splits)

lemma run_experiment_keys:
  "run_experiment w wl ou rq rs n t = Inr (evs, Some r) \<Longrightarrow> set (map fst r) = set live_fieldnames"
proof -
  assume "run_experiment w wl ou rq rs n t = Inr (evs, Some r)"
  then have "map fst r = [''run_id'', ''workload'', ''outstanding'', ''req_bytes'', ''rsp_bytes'',
      ''linkRate'', ''linkDelay'', ''mtu'', ''qdisc'', ''p50_ns'', ''p95_ns'', ''p99_ns'',
      ''completed'', ''out_dir'', ''elapsed_s'']"
    by (rule run_experiment_key_list)
  then show ?thesis
    by (simp only: live_fieldnames_def) auto
qed

lemma run_all_keys:
  "\<forall>r\<in>set (results st). set (map fst r) = set live_fieldnames \<Longrightarrow>
   r \<in> set (results (snd (run_all w t ps st))) \<Longrightarrow> set (map fst r) = set live_fieldnames"
proof (induction w t ps st rule: run_all.induct)
  case (1 w total_runs st)
  then show ?case by simp
next
  case (2 w total_runs workload outstanding req_bytes rsp_bytes rest st)
  show ?case
  proof (cases "run_experiment w workload outstanding req_bytes rsp_bytes (run_num st + 1) total_runs")
    case (Inl e)
    with 2 show ?thesis by (simp add: Let_def)
  next
    case (Inr p)
    obtain evs x where p: "p = (evs, x)" by (cases p)
    show ?thesis
    proof (cases x)
      case None
      with 2 Inr p show ?thesis by (simp add: Let_def)
    next
      case (Some y)
      with Inr p have "set (map fst y) = set live_fieldnames"
        using run_experiment_keys by blast
      with 2 Inr p Some show ?thesis by (simp add: Let_def)
    qed
  qed
qed

lemma rescan_loop_none:
  "\<forall>e\<in>set es. snd (process_dir (fst e) (snd e)) = None \<Longrightarrow> snd (rescan_loop es) = []"
  by (induction es) (auto split: prod.splits)

lemma rescan_writerows:
  "writerows rescan_fieldnames (snd (rescan_loop es)) =
     (map (row_cells rescan_fieldnames) (snd (rescan_loop es)), None)"
proof (rule writerows_cells)
  show "\<forall>r\<in>set (snd (rescan_loop es)). set (map fst r) \<subseteq> set rescan_fieldnames"
    using rescan_loop_keys [of _ es] by auto
qed

lemma main_rescan_unfold:
  assumes "rescan_loop (sort_key fst entries) = (evs, rs)"
  shows "main_rescan (Inr entries) =
     (case print_table rs of
        Some e \<Rightarrow> \<lparr>log = evs @ [ManifestWritten],
                    written = Some \<lparr>header = rescan_fieldnames,
                                    data_rows = map (row_cells rescan_fieldnames) rs\<rparr>,
                    ending = Uncaught e\<rparr>
      | None \<Rightarrow> \<lparr>log = evs @ [ManifestWritten],
                  written = Some \<lparr>header = rescan_fieldnames,
                                  data_rows = map (row_cells rescan_fieldnames) rs\<rparr>,
                  ending = Normal\<rparr>)"
proof -
  have "writerows rescan_fieldnames rs = (map (row_cells rescan_fieldnames) rs, None)"
    using rescan_writerows [of "sort_key fst entries"] assms by simp
  with assms show ?thesis
    by (simp add: main_rescan_def write_csv_def)
qed

lemma main_rescan_written:
  "written (main_rescan (Inr entries)) =
     Some \<lparr>header = rescan_fieldnames,
           data_rows = map (row_cells rescan_fieldnames) (snd (rescan_loop (sort_key fst entries)))\<rparr>"
proof -
  obtain evs rs where l: "rescan_loop (sort_key fst entries) = (evs, rs)"
    by (cases "rescan_loop (sort_key fst entries)")
  show ?thesis
    by (cases "print_table rs") (simp_all add: main_rescan_unfold [OF l] l)
qed

lemma main_rescan_ending:
  "ending (main_rescan (Inr entries)) =
     (case print_table (snd (rescan_loop (sort_key fst entries))) of
        None \<Rightarrow> Normal | Some e \<Rightarrow> Uncaught e)"
proof -
  obtain evs rs where l: "rescan_loop (sort_key fst entries) = (evs, rs)"
    by (cases "rescan_loop (sort_key fst entries)")
  show ?thesis
    by (cases "print_table rs") (simp_all add: main_rescan_unfold [OF l] l)
qed

lemma main_rescan_log:
  "log (main_rescan (Inr entries)) = fst (rescan_loop (sort_key fst entries)) @ [ManifestWritten]"
proof -
  obtain evs rs where l: "rescan_loop (sort_key fst entries) = (evs, rs)"
    by (cases "rescan_loop (sort_key fst entries)")
  show ?thesis
    by (cases "print_table rs") (simp_all add: main_rescan_unfold [OF l] l)
qed

section \<open>Rescan mode with nothing to report\<close>

text \<open>
  Claim C10. In rescan mode, when no entry of the result root yields a row (the root is
  empty, or every entry is passed over, skipped or fails to load), the manifest is still
  written and consists of the header alone, and the process ends normally.
\<close>

theorem rescan_nothing_processed:
  "\<forall>e\<in>set entries. snd (process_dir (fst e) (snd e)) = None \<Longrightarrow>
   written (main_rescan (Inr entries)) = Some \<lparr>header = rescan_fieldnames, data_rows = []\<rparr>
   \<and> ending (main_rescan (Inr entries)) = Normal"
proof -
  assume a: "\<forall>e\<in>set entries. snd (process_dir (fst e) (snd e)) = None"
  have "set (sort_key fst entries) = set entries" by simp
  with a have "snd (rescan_loop (sort_key fst entries)) = []"
    using rescan_loop_none [of "sort_key fst entries"] by simp
  then show ?thesis
    by (simp add: main_rescan_written main_rescan_ending)
qed

theorem rescan_nothing_processed_witness:
  "list_all (\<lambda>e. snd (process_dir (fst e) (snd e)) = None)
     [(''run_b'', Directory (Some (Inr (sample_config ''b''))) None),
      (''notes.txt'', NotADirectory)]
   \<and> written (main_rescan (Inr [(''run_b'', Directory (Some (Inr (sample_config ''b''))) None),
              (''notes.txt'', NotADirectory)]))
       = Some \<lparr>header = rescan_fieldnames, data_rows = []\<rparr>
   \<and> ending (main_rescan (Inr [(''run_b'', Directory (Some (Inr (sample_config ''b''))) None),
              (''notes.txt'', NotADirectory)])) = Normal"
proof -
  have h: "\<forall>e\<in>set [(''run_b'', Directory (Some (Inr (sample_config ''b''))) None),
              (''notes.txt'', NotADirectory)].
      snd (process_dir (fst e) (snd e)) = None"
    by (simp add: process_dir_def)
  show ?thesis
    using h rescan_nothing_processed [OF h] by simp
qed

section \<open>The manifest of live mode\<close>

lemma run_loops_keys:
  "r \<in> set (results (snd (run_loops w ws os ss))) \<Longrightarrow> set (map fst r) = set live_fieldnames"
proof -
  assume "r \<in> set (results (snd (run_loops w ws os ss)))"
  then have "r \<in> set (results (snd (run_all w (length ws * length os * length ss)
       (param_matrix ws os ss)
       \<lparr>run_num = 0, results = [], printed = [TotalRuns (length ws * length os * length ss)]\<rparr>)))"
    by (simp add: run_loops_def Let_def)
  moreover have "\<forall>r\<in>set (results \<lparr>run_num = 0, results = [],
       printed = [TotalRuns (length ws * length os * length ss)]\<rparr>).
       set (map fst r) = set live_fieldnames"
    by simp
  ultimately show ?thesis
    using run_all_keys by blast
qed

lemma live_writerows:
  "writerows live_fieldnames (results (snd (run_loops w ws os ss))) =
     (map (row_cells live_fieldnames) (results (snd (run_loops w ws os ss))), None)"
proof (rule writerows_cells)
  show "\<forall>r\<in>set (results (snd (run_loops w ws os ss))). set (map fst r) \<subseteq> set live_fieldnames"
    using run_loops_keys [of _ w ws os ss] by auto
qed

lemma run_matrix_unfold:
  assumes "run_loops w ws os ss = (err, st)"
  shows "run_matrix w ws os ss =
     (case err of
        Some e \<Rightarrow> \<lparr>log = printed st, written = None, ending = Uncaught e\<rparr>
      | None \<Rightarrow>
          if results st \<noteq> [] then
            \<lparr>log = printed st @ [ManifestWritten],
             written = Some \<lparr>header = live_fieldnames,
                             data_rows = map (row_cells live_fieldnames) (results st)\<rparr>,
             ending = (case print_table (results st) of Some e \<Rightarrow> Uncaught e | None \<Rightarrow> Normal)\<rparr>
          else \<lparr>log = printed st @ [NoSuccessfulRuns], written = None, ending = SysExit 1\<rparr>)"
proof -
  have "writerows live_fieldnames (results st) = (map (row_cells live_fieldnames) (results st), None)"
    using live_writerows [of w ws os ss] assms by simp
  with assms show ?thesis
    by (cases err; cases "print_table (results st)")
       (simp_all add: run_matrix_def write_manifest_def write_csv_def)
qed

section \<open>Exit status when no run gives a result\<close>

text \<open>
  Claim C8, as the code has it. In live mode an execution in which no run produces a result
  writes no manifest and ends with exit status 1. In rescan mode an execution in which the
  result root cannot be listed writes no manifest and ends with exit status 1, by the
  exception that leaves \<^verbatim>\<open>main\<close>. A rescan that lists the result root and gets no result from
  any of its entries writes the manifest with its header alone and ends with exit status 0:
  \<^verbatim>\<open>generate_manifest.py\<close> has no call of \<^verbatim>\<open>sys.exit\<close>.
\<close>

theorem total_failure_exit:
  "(results (snd (run_loops w ws os ss)) = [] \<longrightarrow>
      exit_status (ending (run_matrix w ws os ss)) = 1 \<and> written (run_matrix w ws os ss) = None)
   \<and> exit_status (ending (main_rescan (Inl e))) = 1
   \<and> written (main_rescan (Inl e)) = None
   \<and> (snd (rescan_loop (sort_key fst entries)) = [] \<longrightarrow>
      exit_status (ending (main_rescan (Inr entries))) = 0
      \<and> written (main_rescan (Inr entries)) = Some \<lparr>header = rescan_fieldnames, data_rows = []\<rparr>)"
proof -
  obtain err st where l: "run_loops w ws os ss = (err, st)"
    by (cases "run_loops w ws os ss")
  have "results st = [] \<longrightarrow>
      exit_status (ending (run_matrix w ws os ss)) = 1 \<and> written (run_matrix w ws os ss) = None"
    by (cases err) (simp_all add: run_matrix_unfold [OF l])
  moreover have "exit_status (ending (main_rescan (Inl e))) = 1
      \<and> written (main_rescan (Inl e)) = None"
    by (simp add: main_rescan_def)
  ultimately show ?thesis
    using l by (simp add: main_rescan_ending main_rescan_written)
qed

theorem total_failure_exit_witness:
  "results (snd (run_loops failing_world [''rpc''] [1, 8] [(256, 256)])) = []
   \<and> exit_status (ending (run_matrix failing_world [''rpc''] [1, 8] [(256, 256)])) = 1
   \<and> written (run_matrix failing_world [''rpc''] [1, 8] [(256, 256)]) = None
   \<and> exit_status (ending (main_rescan (Inl OSError))) = 1
   \<and> written (main_rescan (Inl OSError)) = None
   \<and> snd (rescan_loop (sort_key fst [(''run_b'', Directory (Some (Inr (sample_config ''b''))) None)])) = []
   \<and> exit_status (ending (main_rescan
        (Inr [(''run_b'', Directory (Some (Inr (sample_config ''b''))) None)]))) = 0
   \<and> written (main_rescan (Inr [(''run_b'', Directory (Some (Inr (sample_config ''b''))) None)]))
       = Some \<lparr>header = rescan_fieldnames, data_rows = []\<rparr>"
proof -
  have a: "results (snd (run_loops failing_world [''rpc''] [1, 8] [(256, 256)])) = []"
    by (simp add: run_loops_def Let_def param_matrix_def run_experiment_def failing_world_def)
  have b: "snd (rescan_loop (sort_key fst [(''run_b'', Directory (Some (Inr (sample_config ''b''))) None)])) = []"
    by (simp add: process_dir_def)
  show ?thesis
    using a b total_failure_exit [of failing_world "[''rpc'']" "[1, 8]" "[(256, 256)]" OSError
        "[(''run_b'', Directory (Some (Inr (sample_config ''b''))) None)]"]
    by simp
qed

text \<open>
  The claim as stated, a non-zero exit status in both modes, fails in rescan mode: a result
  root that is listed and whose only directory lacks its summary gives no row, the manifest
  with its header alone and exit status 0.
\<close>

theorem rescan_exit_counterexample:
  "written (main_rescan (Inr [(''run_b'', Directory (Some (Inr (sample_config ''b''))) None)]))
     = Some \<lparr>header = rescan_fieldnames, data_rows = []\<rparr>
   \<and> ending (main_rescan (Inr [(''run_b'', Directory (Some (Inr (sample_config ''b''))) None)])) = Normal
   \<and> exit_status (ending (main_rescan
        (Inr [(''run_b'', Directory (Some (Inr (sample_config ''b''))) None)]))) = 0"
  by (simp add: main_rescan_written main_rescan_ending process_dir_def)

section \<open>The sample artifacts evaluated\<close>

lemma sample_summary_parses:
  "parse_summary (Inr sample_summary) = Inr (1234, 5678, 9999, 9000)"
  by (simp add: parse_summary_def summary_scan_def sample_summary_def newline_def py_split_def
      LATENCY_NS_def LATENCY_US_def parse_completed_def parse_latency_def line_field_def
      py_index_def py_strip_def is_space_def number_defs)

lemma sample_summary_stats:
  "extract_stats_run (Inr sample_summary) = (None, (1234, 5678, 9999, 9000))"
  using sample_summary_parses
  by (auto simp: parse_summary_def extract_stats_run_def split: sum.splits)

lemma sample_rescan_row:
  "process_dir ''run_a'' (Directory (Some (Inr (sample_config ''a''))) (Some (Inr sample_summary))) =
     ([Processed ''run_a''],
      Some [(''run_id'', PStr ''a''), (''workload'', PStr ''rpc''), (''outstanding'', PInt 8),
            (''req_bytes'', PInt 256), (''rsp_bytes'', PInt 256), (''linkRate'', PStr ''10Gbps''),
            (''linkDelay'', PStr ''50us''), (''mtu'', PInt 1500), (''qdisc'', PStr ''none''),
            (''p50_ns'', PInt 1234), (''p95_ns'', PInt 5678), (''p99_ns'', PInt 9999),
            (''completed'', PInt 9000), (''out_dir'', PStr ''../out/sim/run_a'')])"
  by (simp add: process_dir_def rescan_row_def sample_summary_parses sample_config_def
      config_columns_def py_getitem_def os_path_join_def RESCAN_OUT_DIR_def)

lemma sample_scan:
  "scan_stdout (py_split newline (sample_stdout ''run-one'')) (None, None) =
     Inr (Some ''run-one'', Some ''out/sim/run-one'')"
  "scan_stdout (py_split newline (sample_stdout ''run-next'')) (None, None) =
     Inr (Some ''run-next'', Some ''out/sim/run-next'')"
  by (simp_all add: sample_stdout_def newline_def py_split_def marker_value_def py_index_def
      py_strip_def is_space_def)

lemma sample_world_simps:
  "ns3_root sample_world = ''/ns-3/scratch''"
  "engine sample_world n cmd =
     (if n = 2 then Exited 1 [] ''failed''
      else if n = 1 then Exited 0 (sample_stdout ''run-one'') []
      else Exited 0 (sample_stdout ''run-next'') [])"
  "read_file sample_world n path = Inr sample_summary"
  "elapsed sample_world n = ''0.5''"
  by (simp_all add: sample_world_def)

lemma sample_run:
  "run_experiment sample_world wl ou rq rs n t =
     (if n = 2 then
        Inr ([Invoke n (build_cmd ''/ns-3/scratch'' wl ou rq rs), RunFailed n 1], None)
      else if n = 1 then
        Inr ([Invoke n (build_cmd ''/ns-3/scratch'' wl ou rq rs), RunCompleted n ''run-one''],
             Some (live_row sample_world n ''run-one'' ''out/sim/run-one'' wl ou rq rs
                     (1234, 5678, 9999, 9000)))
      else
        Inr ([Invoke n (build_cmd ''/ns-3/scratch'' wl ou rq rs), RunCompleted n ''run-next''],
             Some (live_row sample_world n ''run-next'' ''out/sim/run-next'' wl ou rq rs
                     (1234, 5678, 9999, 9000))))"
  by (simp add: run_experiment_def sample_world_simps sample_scan falsy_def
      sample_summary_stats)

lemma run_matrix_written:
  "written (run_matrix w ws os ss) = Some m \<Longrightarrow>
   m = \<lparr>header = live_fieldnames,
        data_rows = map (row_cells live_fieldnames) (results (snd (run_loops w ws os ss)))\<rparr>"
proof -
  obtain err st where l: "run_loops w ws os ss = (err, st)"
    by (cases "run_loops w ws os ss")
  assume "written (run_matrix w ws os ss) = Some m"
  with l show ?thesis
    by (cases err) (auto simp: run_matrix_unfold [OF l] split: if_splits)
qed

lemma row_cells_length: "length (row_cells fs r) = length fs"
  by (simp add: row_cells_def)

section \<open>The column schema of the two modes\<close>

text \<open>
  Claim C7, as the code has it. Each mode writes its own fixed header: live mode the fifteen
  columns with \<^verbatim>\<open>elapsed_s\<close> before \<^verbatim>\<open>out_dir\<close>, rescan mode the same list without
  \<^verbatim>\<open>elapsed_s\<close>, fourteen columns. Every dictionary a mode collects has exactly the keys of
  that mode's header, so every data row has one cell per column of the header and no cell is
  filled in as empty.
\<close>

theorem manifest_schemas:
  "rescan_fieldnames = filter (\<lambda>c. c \<noteq> ''elapsed_s'') live_fieldnames
   \<and> (written (run_matrix w ws os ss) = Some m \<longrightarrow>
        header m = live_fieldnames
        \<and> list_all (\<lambda>cells. length cells = length live_fieldnames) (data_rows m))
   \<and> (written (main_rescan listing) = Some m' \<longrightarrow>
        header m' = rescan_fieldnames
        \<and> list_all (\<lambda>cells. length cells = length rescan_fieldnames) (data_rows m'))
   \<and> (\<forall>r\<in>set (results (snd (run_loops w ws os ss))). set (map fst r) = set live_fieldnames)
   \<and> (\<forall>r\<in>set (snd (rescan_loop entries)). map fst r = rescan_fieldnames)"
proof -
  have 1: "rescan_fieldnames = filter (\<lambda>c. c \<noteq> ''elapsed_s'') live_fieldnames"
    by (simp add: rescan_fieldnames_def live_fieldnames_def)
  have 2: "written (run_matrix w ws os ss) = Some m \<longrightarrow>
        header m = live_fieldnames
        \<and> list_all (\<lambda>cells. length cells = length live_fieldnames) (data_rows m)"
    by (auto dest!: run_matrix_written simp: list_all_iff row_cells_length)
  have 3: "written (main_rescan listing) = Some m' \<longrightarrow>
        header m' = rescan_fieldnames
        \<and> list_all (\<lambda>cells. length cells = length rescan_fieldnames) (data_rows m')"
  proof (cases listing)
    case (Inl e)
    then show ?thesis by (simp add: main_rescan_def)
  next
    case (Inr entries)
    then show ?thesis
      by (auto simp: main_rescan_written list_all_iff row_cells_length)
  qed
  have 4: "\<forall>r\<in>set (results (snd (run_loops w ws os ss))). set (map fst r) = set live_fieldnames"
    using run_loops_keys by blast
  have 5: "\<forall>r\<in>set (snd (rescan_loop entries)). map fst r = rescan_fieldnames"
    using rescan_loop_keys by blast
  from 1 2 3 4 5 show ?thesis by blast
qed

theorem manifest_schemas_witness:
  "written (run_matrix sample_world [''rpc''] [8] [(256, 256)]) =
     Some \<lparr>header = live_fieldnames,
           data_rows = [[PStr ''run-one'', PStr ''rpc'', PInt 8, PInt 256, PInt 256,
             PStr ''10Gbps'', PStr ''50us'', PInt 1500, PStr ''none'', PInt 1234, PInt 5678,
             PInt 9999, PInt 9000, PStr ''0.5'', PStr ''out/sim/run-one'']]\<rparr>
   \<and> written (main_rescan (Inr [(''run_a'',
        Directory (Some (Inr (sample_config ''a''))) (Some (Inr sample_summary)))])) =
     Some \<lparr>header = rescan_fieldnames,
           data_rows = [[PStr ''a'', PStr ''rpc'', PInt 8, PInt 256, PInt 256,
             PStr ''10Gbps'', PStr ''50us'', PInt 1500, PStr ''none'', PInt 1234, PInt 5678,
             PInt 9999, PInt 9000, PStr ''../out/sim/run_a'']]\<rparr>
   \<and> length live_fieldnames = 15 \<and> length rescan_fieldnames = 14
   \<and> rescan_fieldnames = filter (\<lambda>c. c \<noteq> ''elapsed_s'') live_fieldnames"
proof -
  have l: "run_loops sample_world [''rpc''] [8] [(256, 256)] =
      (None, \<lparr>run_num = 1,
         results = [live_row sample_world 1 ''run-one'' ''out/sim/run-one'' ''rpc'' 8 256 256
                  (1234, 5678, 9999, 9000)],
         printed = [TotalRuns 1, Invoke 1 (build_cmd ''/ns-3/scratch'' ''rpc'' 8 256 256),
                    RunCompleted 1 ''run-one'']\<rparr>)"
    by (simp add: run_loops_def Let_def param_matrix_def sample_run)
  have a: "written (run_matrix sample_world [''rpc''] [8] [(256, 256)]) =
     Some \<lparr>header = live_fieldnames,
           data_rows = [[PStr ''run-one'', PStr ''rpc'', PInt 8, PInt 256, PInt 256,
             PStr ''10Gbps'', PStr ''50us'', PInt 1500, PStr ''none'', PInt 1234, PInt 5678,
             PInt 9999, PInt 9000, PStr ''0.5'', PStr ''out/sim/run-one'']]\<rparr>"
    by (simp add: run_matrix_unfold [OF l] row_cells_def live_row_def live_fieldnames_def
        sample_world_simps LINK_RATE_def LINK_DELAY_def MTU_def QDISC_def)
  have b: "written (main_rescan (Inr [(''run_a'',
        Directory (Some (Inr (sample_config ''a''))) (Some (Inr sample_summary)))])) =
     Some \<lparr>header = rescan_fieldnames,
           data_rows = [[PStr ''a'', PStr ''rpc'', PInt 8, PInt 256, PInt 256,
             PStr ''10Gbps'', PStr ''50us'', PInt 1500, PStr ''none'', PInt 1234, PInt 5678,
             PInt 9999, PInt 9000, PStr ''../out/sim/run_a'']]\<rparr>"
    by (simp add: main_rescan_written sample_rescan_row row_cells_def rescan_fieldnames_def)
  have c: "length live_fieldnames = 15 \<and> length rescan_fieldnames = 14"
    by (simp add: live_fieldnames_def rescan_fieldnames_def)
  show ?thesis
    using a b c manifest_schemas [of sample_world "[''rpc'']" "[8]" "[(256, 256)]"
        "\<lparr>header = live_fieldnames,
           data_rows = [[PStr ''run-one'', PStr ''rpc'', PInt 8, PInt 256, PInt 256,
             PStr ''10Gbps'', PStr ''50us'', PInt 1500, PStr ''none'', PInt 1234, PInt 5678,
             PInt 9999, PInt 9000, PStr ''0.5'', PStr ''out/sim/run-one'']]\<rparr>"
        "Inr [(''run_a'', Directory (Some (Inr (sample_config ''a''))) (Some (Inr sample_summary)))]"
        "\<lparr>header = rescan_fieldnames,
           data_rows = [[PStr ''a'', PStr ''rpc'', PInt 8, PInt 256, PInt 256,
             PStr ''10Gbps'', PStr ''50us'', PInt 1500, PStr ''none'', PInt 1234, PInt 5678,
             PInt 9999, PInt 9000, PStr ''../out/sim/run_a'']]\<rparr>" "[]"]
    by simp
qed

text \<open>
  The claim as stated, that the \<^verbatim>\<open>elapsed_s\<close> column is kept in the header of rescan mode
  with empty cells, fails: the manifest of a root with one complete directory has fourteen
  columns and fourteen cells, and \<^verbatim>\<open>elapsed_s\<close> is not among them.
\<close>

theorem rescan_header_counterexample:
  "written (main_rescan (Inr [(''run_a'',
        Directory (Some (Inr (sample_config ''a''))) (Some (Inr sample_summary)))])) =
     Some \<lparr>header = [''run_id'', ''workload'', ''outstanding'', ''req_bytes'', ''rsp_bytes'',
             ''linkRate'', ''linkDelay'', ''mtu'', ''qdisc'', ''p50_ns'', ''p95_ns'', ''p99_ns'',
             ''completed'', ''out_dir''],
           data_rows = [[PStr ''a'', PStr ''rpc'', PInt 8, PInt 256, PInt 256,
             PStr ''10Gbps'', PStr ''50us'', PInt 1500, PStr ''none'', PInt 1234, PInt 5678,
             PInt 9999, PInt 9000, PStr ''../out/sim/run_a'']]\<rparr>
   \<and> ''elapsed_s'' \<notin> set rescan_fieldnames
   \<and> ''elapsed_s'' \<in> set live_fieldnames"
  by (simp add: main_rescan_written sample_rescan_row row_cells_def rescan_fieldnames_def
      live_fieldnames_def)

section \<open>Markers in the output of the engine, and the loop over the runs\<close>

lemma split_acc_nonempty: "split_acc sep cur s \<noteq> []"
  by (induction s arbitrary: cur) auto

lemma split_acc_contains:
  "contains sep s \<Longrightarrow> sep \<noteq> [] \<Longrightarrow> 2 \<le> length (split_acc sep cur s)"
proof (induction s arbitrary: cur)
  case Nil
  then show ?case by simp
next
  case (Cons c cs)
  show ?case
  proof (cases "prefix sep (c # cs)")
    case True
    have "1 \<le> length (split_acc sep [] (drop (length sep - 1) cs))"
      using split_acc_nonempty [of sep "[]" "drop (length sep - 1) cs"]
      by (cases "split_acc sep [] (drop (length sep - 1) cs)") auto
    with True show ?thesis by simp
  next
    case False
    with Cons.prems have "contains sep cs" by simp
    with Cons.IH Cons.prems(2) False show ?thesis by simp
  qed
qed

lemma py_index_second:
  "contains sep line \<Longrightarrow> sep \<noteq> [] \<Longrightarrow>
   py_index (py_split sep line) (Suc 0) = Inr (py_split sep line ! Suc 0)"
  using split_acc_contains [of sep line "[]"]
  by (simp add: py_index_def py_split_def)

lemma marker_value_found:
  "contains marker line \<Longrightarrow> marker \<noteq> [] \<Longrightarrow>
   marker_value marker line = Inr (py_strip (py_split marker line ! 1))"
  by (simp add: marker_value_def py_index_second)

lemma find_snoc:
  "find P (xs @ [x]) = (case find P xs of None \<Rightarrow> (if P x then Some x else None) | Some y \<Rightarrow> Some y)"
  by (induction xs) auto

lemma scan_stdout_last:
  "scan_stdout lines (run_id, out_path) =
     Inr (case find (contains ''Run ID:'') (rev lines) of
            None \<Rightarrow> run_id
          | Some l \<Rightarrow> Some (py_strip (py_split ''Run ID:'' l ! 1)),
          case find (\<lambda>l. \<not> contains ''Run ID:'' l \<and> contains ''Results written to:'' l) (rev lines) of
            None \<Rightarrow> out_path
          | Some l \<Rightarrow> Some (py_strip (py_split ''Results written to:'' l ! 1)))"
proof (induction lines arbitrary: run_id out_path)
  case Nil
  then show ?case by simp
next
  case (Cons l ls)
  show ?case
  proof (cases "contains ''Run ID:'' l")
    case True
    then show ?thesis
      using Cons.IH [of "Some (py_strip (py_split ''Run ID:'' l ! 1))" out_path]
      by (simp add: marker_value_found find_snoc split: option.splits)
  next
    case False
    show ?thesis
    proof (cases "contains ''Results written to:'' l")
      case True
      with False show ?thesis
        using Cons.IH [of run_id "Some (py_strip (py_split ''Results written to:'' l ! 1))"]
        by (simp add: marker_value_found find_snoc split: option.splits)
    next
      case no: False
      with False show ?thesis
        using Cons.IH [of run_id out_path]
        by (simp add: find_snoc split: option.splits)
    qed
  qed
qed

lemma scan_stdout_returns: "\<exists>rid opath. scan_stdout lines ids = Inr (rid, opath)"
  by (cases ids) (simp add: scan_stdout_last)

lemma run_experiment_exited:
  assumes "engine w n (build_cmd (ns3_root w) wl ou rq rs) = Exited status out err"
  shows "\<exists>evs r. run_experiment w wl ou rq rs n t = Inr (evs, r)"
proof (cases "status = 0")
  case False
  with assms show ?thesis by (simp add: run_experiment_def)
next
  case True
  obtain rid opath where s: "scan_stdout (py_split newline out) (None, None) = Inr (rid, opath)"
    using scan_stdout_returns by blast
  show ?thesis
  proof (cases "falsy rid \<or> falsy opath")
    case True
    with assms \<open>status = 0\<close> s show ?thesis by (simp add: run_experiment_def)
  next
    case False
    then obtain a b where "rid = Some a" "opath = Some b"
      by (cases rid; cases opath) (auto simp: falsy_def)
    with assms \<open>status = 0\<close> s False show ?thesis
      by (simp add: run_experiment_def Let_def split: prod.splits)
  qed
qed

lemma run_experiment_raises:
  "run_experiment w wl ou rq rs n t = Inl e \<Longrightarrow>
   \<exists>status. engine w n (build_cmd (ns3_root w) wl ou rq rs) = Raised e status"
proof (cases "engine w n (build_cmd (ns3_root w) wl ou rq rs)")
  case (Exited status out err)
  assume "run_experiment w wl ou rq rs n t = Inl e"
  with run_experiment_exited [OF Exited, of t] show ?thesis by auto
next
  case (Raised e' status)
  assume "run_experiment w wl ou rq rs n t = Inl e"
  with Raised show ?thesis by (simp add: run_experiment_def)
qed

lemma run_all_step:
  "run_all w t ((wl, ou, rq, rs) # rest) st =
     (case run_experiment w wl ou rq rs (run_num st + 1) t of
        Inl e \<Rightarrow>
          (Some e,
           \<lparr>run_num = run_num st + 1, results = results st,
            printed = printed st @
              [Invoke (run_num st + 1) (build_cmd (ns3_root w) wl ou rq rs)]\<rparr>)
      | Inr (evs, Some r) \<Rightarrow>
          run_all w t rest
            \<lparr>run_num = run_num st + 1, results = results st @ [r], printed = printed st @ evs\<rparr>
      | Inr (evs, None) \<Rightarrow>
          run_all w t rest
            \<lparr>run_num = run_num st + 1, results = results st,
             printed = printed st @ evs @ [RunSkipped (run_num st + 1)]\<rparr>)"
  by (simp add: Let_def split: sum.splits prod.splits option.splits)


section \<open>The order of the parameter sets\<close>

lemma param_matrix_product:
  "param_matrix ws os ss = List.product ws (List.product os ss)"
proof -
  have e: "\<And>wl ou. (\<lambda>(rq :: int, rs :: int). (wl :: string, ou :: int, rq, rs)) = (\<lambda>s. (wl, ou, s))"
    by auto
  show ?thesis
    by (simp add: param_matrix_def e product_concat_map map_concat comp_def)
qed

lemma length_param_matrix:
  "length (param_matrix ws os ss) = length ws * length os * length ss"
  by (simp add: param_matrix_product)

lemma distinct_param_matrix:
  "distinct ws \<Longrightarrow> distinct os \<Longrightarrow> distinct ss \<Longrightarrow> distinct (param_matrix ws os ss)"
  by (simp add: param_matrix_product distinct_product)

lemma set_param_matrix:
  "set (param_matrix ws os ss) = set ws \<times> set os \<times> set ss"
  by (simp add: param_matrix_product)

lemma index_div_mod:
  fixes i m r :: nat
  assumes "r < m"
  shows "(i * m + r) div m = i" "(i * m + r) mod m = r"
  using assms by simp_all

lemma nth_param_matrix:
  assumes "i < length ws" "j < length os" "k < length ss"
  shows "param_matrix ws os ss ! (i * (length os * length ss) + (j * length ss + k)) =
           (ws ! i, os ! j, ss ! k)"
proof -
  let ?m = "length os * length ss"
  let ?r = "j * length ss + k"
  have jk: "?r < ?m"
  proof -
    have "?r < j * length ss + length ss" using assms by simp
    also have "\<dots> = Suc j * length ss" by simp
    also have "\<dots> \<le> length os * length ss"
      using assms by (intro mult_le_mono1) simp
    finally show ?thesis .
  qed
  have n: "i * ?m + ?r < length ws * ?m"
  proof -
    have "i * ?m + ?r < i * ?m + ?m" using jk by simp
    also have "\<dots> = Suc i * ?m" by simp
    also have "\<dots> \<le> length ws * ?m"
      using assms by (intro mult_le_mono1) simp
    finally show ?thesis .
  qed
  have d1: "(i * ?m + ?r) div ?m = i" using jk by (rule index_div_mod)
  have m1: "(i * ?m + ?r) mod ?m = ?r" using jk by (rule index_div_mod)
  have d2: "?r div length ss = j" using assms(3) by (rule index_div_mod)
  have m2: "?r mod length ss = k" using assms(3) by (rule index_div_mod)
  have "List.product ws (List.product os ss) ! (i * ?m + ?r) =
          (ws ! ((i * ?m + ?r) div ?m), List.product os ss ! ((i * ?m + ?r) mod ?m))"
    using n product_nth [of "i * ?m + ?r" ws "List.product os ss"] by simp
  also have "\<dots> = (ws ! i, List.product os ss ! ?r)"
    by (simp only: d1 m1)
  also have "List.product os ss ! ?r = (os ! (?r div length ss), ss ! (?r mod length ss))"
    using jk by (rule product_nth)
  finally show ?thesis
    by (simp only: d2 m2 param_matrix_product)
qed

section \<open>What live mode prints\<close>

lemma invocations_append: "invocations (xs @ ys) = invocations xs @ invocations ys"
  by (induction xs rule: invocations.induct) simp_all

lemma run_experiment_invocations:
  assumes "run_experiment w wl ou rq rs n t = Inr (evs, x)"
  shows "invocations evs = [(n, build_cmd (ns3_root w) wl ou rq rs)]"
proof (cases "engine w n (build_cmd (ns3_root w) wl ou rq rs)")
  case (Raised e status)
  with assms show ?thesis by (simp add: run_experiment_def)
next
  case (Exited status out err)
  show ?thesis
  proof (cases "status = 0")
    case False
    with assms Exited show ?thesis by (auto simp: run_experiment_def)
  next
    case True
    obtain rid opath where s: "scan_stdout (py_split newline out) (None, None) = Inr (rid, opath)"
      using scan_stdout_returns by blast
    show ?thesis
    proof (cases "falsy rid \<or> falsy opath")
      case True
      with assms Exited \<open>status = 0\<close> s show ?thesis by (auto simp: run_experiment_def)
    next
      case False
      then obtain a b where ab: "rid = Some a" "opath = Some b"
        by (cases rid; cases opath) (auto simp: falsy_def)
      obtain wn st where
        e: "extract_stats_run (read_file w n (os_path_join b ''summary.txt'')) = (wn, st)"
        by (cases "extract_stats_run (read_file w n (os_path_join b ''summary.txt''))")
      from assms Exited \<open>status = 0\<close> s False ab e show ?thesis
        by (cases wn) (auto simp: run_experiment_def Let_def invocations_append)
    qed
  qed
qed

lemma run_all_printed:
  "\<exists>evs. printed (snd (run_all w t ps st)) = printed st @ evs"
proof (induction ps arbitrary: st)
  case Nil
  show ?case by simp
next
  case (Cons p ps)
  obtain wl ou rq rs where p: "p = (wl, ou, rq, rs)" by (cases p)
  show ?case
  proof (cases "run_experiment w wl ou rq rs (run_num st + 1) t")
    case (Inl e)
    then show ?thesis unfolding p run_all_step by simp
  next
    case (Inr q)
    obtain evs x where q: "q = (evs, x)" by (cases q)
    show ?thesis
    proof (cases x)
      case None
      obtain evs' where "printed (snd (run_all w t ps
            \<lparr>run_num = run_num st + 1, results = results st,
             printed = printed st @ evs @ [RunSkipped (run_num st + 1)]\<rparr>)) =
           (printed st @ evs @ [RunSkipped (run_num st + 1)]) @ evs'"
        using Cons.IH [of "\<lparr>run_num = run_num st + 1, results = results st,
             printed = printed st @ evs @ [RunSkipped (run_num st + 1)]\<rparr>"] by auto
      with Inr q None show ?thesis unfolding p run_all_step by simp
    next
      case (Some y)
      obtain evs' where "printed (snd (run_all w t ps
            \<lparr>run_num = run_num st + 1, results = results st @ [y],
             printed = printed st @ evs\<rparr>)) = (printed st @ evs) @ evs'"
        using Cons.IH [of "\<lparr>run_num = run_num st + 1, results = results st @ [y],
             printed = printed st @ evs\<rparr>"] by auto
      with Inr q Some show ?thesis unfolding p run_all_step by simp
    qed
  qed
qed

lemma run_all_invocations:
  assumes "\<forall>n cmd e status. engine w n cmd \<noteq> Raised e status"
  shows "invocations (printed (snd (run_all w t ps st))) =
     invocations (printed st) @
     map (\<lambda>(i, (wl, ou, rq, rs)). (Suc i, build_cmd (ns3_root w) wl ou rq rs))
       (enumerate (run_num st) ps)"
proof (induction ps arbitrary: st)
  case Nil
  show ?case by simp
next
  case (Cons p ps)
  obtain wl ou rq rs where p: "p = (wl, ou, rq, rs)" by (cases p)
  obtain status out err where
    "engine w (run_num st + 1) (build_cmd (ns3_root w) wl ou rq rs) = Exited status out err"
    using assms by (cases "engine w (run_num st + 1) (build_cmd (ns3_root w) wl ou rq rs)") auto
  then obtain evs x where
    r: "run_experiment w wl ou rq rs (run_num st + 1) t = Inr (evs, x)"
    using run_experiment_exited by blast
  have i: "invocations evs = [(run_num st + 1, build_cmd (ns3_root w) wl ou rq rs)]"
    using r by (rule run_experiment_invocations)
  show ?case
  proof (cases x)
    case None
    have "run_all w t (p # ps) st = run_all w t ps
            \<lparr>run_num = run_num st + 1, results = results st,
             printed = printed st @ evs @ [RunSkipped (run_num st + 1)]\<rparr>"
      unfolding p run_all_step using r None by simp
    then show ?thesis
      using Cons.IH [of "\<lparr>run_num = run_num st + 1, results = results st,
             printed = printed st @ evs @ [RunSkipped (run_num st + 1)]\<rparr>"] i
      by (simp add: invocations_append p)
  next
    case (Some y)
    have "run_all w t (p # ps) st = run_all w t ps
            \<lparr>run_num = run_num st + 1, results = results st @ [y], printed = printed st @ evs\<rparr>"
      unfolding p run_all_step using r Some by simp
    then show ?thesis
      using Cons.IH [of "\<lparr>run_num = run_num st + 1, results = results st @ [y],
             printed = printed st @ evs\<rparr>"] i
      by (simp add: invocations_append p)
  qed
qed

lemma run_matrix_log:
  "\<exists>evs. log (run_matrix w ws os ss) = printed (snd (run_loops w ws os ss)) @ evs
         \<and> invocations evs = []"
proof -
  obtain err st where l: "run_loops w ws os ss = (err, st)"
    by (cases "run_loops w ws os ss")
  show ?thesis
    by (cases err) (simp_all add: run_matrix_unfold [OF l] l)
qed

lemma run_loops_printed:
  "\<exists>evs. printed (snd (run_loops w ws os ss)) =
     TotalRuns (length ws * length os * length ss) # evs"
  using run_all_printed [of w "length ws * length os * length ss" "param_matrix ws os ss"
     "\<lparr>run_num = 0, results = [], printed = [TotalRuns (length ws * length os * length ss)]\<rparr>"]
  by (simp add: run_loops_def Let_def)

section \<open>The parameter matrix\<close>

text \<open>
  Claim C1, as the code has it. For dimension lists of sizes \<open>w\<close>, \<open>o\<close> and \<open>s\<close> the three
  nested loops visit exactly \<open>w * o * s\<close> parameter sets, all combinations of the three
  lists, in nested order: workload outermost, then outstanding, then size, each in the
  order of its list. The parameter sets are pairwise distinct provided no dimension list
  repeats an entry, as is the case for the lists of the script. The count \<open>w * o * s\<close> is the
  first thing printed, before any invocation of the engine, and when no invocation raises
  an exception other than \<^verbatim>\<open>CalledProcessError\<close> the invocations are those of the parameter
  sets, numbered from one, in that order.
\<close>

theorem matrix_enumeration:
  "length (param_matrix ws os ss) = length ws * length os * length ss
   \<and> set (param_matrix ws os ss) = set ws \<times> set os \<times> set ss
   \<and> (distinct ws \<and> distinct os \<and> distinct ss \<longrightarrow> distinct (param_matrix ws os ss))
   \<and> (\<forall>i<length ws. \<forall>j<length os. \<forall>k<length ss.
         param_matrix ws os ss ! (i * (length os * length ss) + (j * length ss + k)) =
           (ws ! i, os ! j, ss ! k))
   \<and> (\<exists>evs. log (run_matrix w ws os ss) = TotalRuns (length ws * length os * length ss) # evs)
   \<and> ((\<forall>n cmd e status. engine w n cmd \<noteq> Raised e status) \<longrightarrow>
        invocations (log (run_matrix w ws os ss)) =
          map (\<lambda>(i, (wl, ou, rq, rs)). (Suc i, build_cmd (ns3_root w) wl ou rq rs))
            (enumerate 0 (param_matrix ws os ss)))"
proof -
  have 5: "\<exists>evs. log (run_matrix w ws os ss) = TotalRuns (length ws * length os * length ss) # evs"
    using run_matrix_log [of w ws os ss] run_loops_printed [of w ws os ss] by auto
  have 6: "invocations (log (run_matrix w ws os ss)) =
          map (\<lambda>(i, (wl, ou, rq, rs)). (Suc i, build_cmd (ns3_root w) wl ou rq rs))
            (enumerate 0 (param_matrix ws os ss))"
    if a: "\<forall>n cmd e status. engine w n cmd \<noteq> Raised e status"
  proof -
    obtain evs where e: "log (run_matrix w ws os ss) = printed (snd (run_loops w ws os ss)) @ evs"
      "invocations evs = []"
      using run_matrix_log by blast
    have "invocations (printed (snd (run_loops w ws os ss))) =
          map (\<lambda>(i, (wl, ou, rq, rs)). (Suc i, build_cmd (ns3_root w) wl ou rq rs))
            (enumerate 0 (param_matrix ws os ss))"
      using run_all_invocations [OF a, of "length ws * length os * length ss"
          "param_matrix ws os ss"
          "\<lparr>run_num = 0, results = [], printed = [TotalRuns (length ws * length os * length ss)]\<rparr>"]
      by (simp add: run_loops_def Let_def)
    with e show ?thesis by (simp add: invocations_append)
  qed
  show ?thesis
    using length_param_matrix [of ws os ss] set_param_matrix [of ws os ss]
      distinct_param_matrix [of ws os ss] nth_param_matrix [of _ ws _ os _ ss] 5 6
    by blast
qed

theorem matrix_enumeration_witness:
  "distinct WORKLOADS \<and> distinct OUTSTANDING \<and> distinct SIZES
   \<and> distinct (param_matrix WORKLOADS OUTSTANDING SIZES)
   \<and> length (param_matrix WORKLOADS OUTSTANDING SIZES) = 18
   \<and> param_matrix WORKLOADS OUTSTANDING SIZES ! 16 = (''rpc'', 32, 1024, 1024)
   \<and> hd (log (main_live failing_world)) = TotalRuns 18
   \<and> map fst (invocations (log (main_live failing_world))) = [1..<19]"
proof -
  have d: "distinct WORKLOADS \<and> distinct OUTSTANDING \<and> distinct SIZES"
    by (simp add: WORKLOADS_def OUTSTANDING_def SIZES_def)
  have l: "length WORKLOADS = 2" "length OUTSTANDING = 3" "length SIZES = 3"
    by (simp_all add: WORKLOADS_def OUTSTANDING_def SIZES_def)
  have n: "WORKLOADS ! Suc 0 = ''rpc''" "OUTSTANDING ! 2 = 32" "SIZES ! Suc 0 = (1024, 1024)"
    by (simp_all add: WORKLOADS_def OUTSTANDING_def SIZES_def)
  have s: "\<forall>n cmd e status. engine failing_world n cmd \<noteq> Raised e status"
    by (simp add: failing_world_def)
  note m = matrix_enumeration [of WORKLOADS OUTSTANDING SIZES failing_world]
  have 1: "distinct (param_matrix WORKLOADS OUTSTANDING SIZES)"
    using m d by blast
  have 2: "length (param_matrix WORKLOADS OUTSTANDING SIZES) = 18"
    using m l by simp
  have q: "\<forall>i<length WORKLOADS. \<forall>j<length OUTSTANDING. \<forall>k<length SIZES.
      param_matrix WORKLOADS OUTSTANDING SIZES !
        (i * (length OUTSTANDING * length SIZES) + (j * length SIZES + k)) =
        (WORKLOADS ! i, OUTSTANDING ! j, SIZES ! k)"
    using m by blast
  have "param_matrix WORKLOADS OUTSTANDING SIZES !
      (1 * (length OUTSTANDING * length SIZES) + (2 * length SIZES + 1)) =
        (WORKLOADS ! 1, OUTSTANDING ! 2, SIZES ! 1)"
    using q [rule_format, of 1 2 1] l by simp
  then have 3: "param_matrix WORKLOADS OUTSTANDING SIZES ! 16 = (''rpc'', 32, 1024, 1024)"
    by (simp add: l n)
  have 4: "hd (log (main_live failing_world)) = TotalRuns 18"
    using m l by (auto simp: main_live_def)
  have "invocations (log (main_live failing_world)) =
          map (\<lambda>(i, (wl, ou, rq, rs)). (Suc i, build_cmd (ns3_root failing_world) wl ou rq rs))
            (enumerate 0 (param_matrix WORKLOADS OUTSTANDING SIZES))"
    using m s by (simp add: main_live_def)
  then have "map fst (invocations (log (main_live failing_world))) =
      map (Suc \<circ> fst) (enumerate 0 (param_matrix WORKLOADS OUTSTANDING SIZES))"
    by (simp add: case_prod_beta comp_def)
  also have "\<dots> = map Suc (map fst (enumerate 0 (param_matrix WORKLOADS OUTSTANDING SIZES)))"
    by (simp only: map_map)
  also have "\<dots> = map Suc [0..<18]"
    by (simp only: map_fst_enumerate 2) simp
  also have "\<dots> = [1..<19]"
    by (simp only: map_Suc_upt) simp
  finally have 5: "map fst (invocations (log (main_live failing_world))) = [1..<19]" .
  from d 1 2 3 4 5 show ?thesis by simp
qed

text \<open>
  The claim as stated, distinct parameter sets for every triple of dimension lists, fails
  for a list with a repeated entry: the loops do not remove duplicates.
\<close>

theorem matrix_duplicates_counterexample:
  "param_matrix [''rpc'', ''rpc''] [1] [(256, 256)] =
     [(''rpc'', 1, 256, 256), (''rpc'', 1, 256, 256)]
   \<and> \<not> distinct (param_matrix [''rpc'', ''rpc''] [1] [(256, 256)])"
  by (simp add: param_matrix_def)

section \<open>A run whose engine fails\<close>








section \<open>Run identifier and result directory\<close>

text \<open>
  Claim C9, as the code has it. The run identifier is taken from the last line of the
  captured output that contains \<^verbatim>\<open>Run ID:\<close>; the result directory is taken from the last
  line that contains \<^verbatim>\<open>Results written to:\<close> and does not contain \<^verbatim>\<open>Run ID:\<close>, since
  the second test is the \<^verbatim>\<open>elif\<close> of the first. The value is the text between the first
  and the second occurrence of the marker on that line, trimmed. When either value is
  missing or empty after trimming, a warning is printed and no result is produced.
\<close>

theorem stdout_markers:
  "scan_stdout lines (None, None) =
     Inr (map_option (\<lambda>l. py_strip (py_split ''Run ID:'' l ! 1))
            (find (contains ''Run ID:'') (rev lines)),
          map_option (\<lambda>l. py_strip (py_split ''Results written to:'' l ! 1))
            (find (\<lambda>l. \<not> contains ''Run ID:'' l \<and> contains ''Results written to:'' l)
               (rev lines)))
   \<and> (engine w n (build_cmd (ns3_root w) wl ou rq rs) = Exited 0 out err
        \<and> scan_stdout (py_split newline out) (None, None) = Inr (run_id, out_path)
        \<and> (run_id = None \<or> run_id = Some [] \<or> out_path = None \<or> out_path = Some []) \<longrightarrow>
        run_experiment w wl ou rq rs n t =
          Inr ([Invoke n (build_cmd (ns3_root w) wl ou rq rs), NoRunId n], None))"
proof -
  have 1: "scan_stdout lines (None, None) =
     Inr (map_option (\<lambda>l. py_strip (py_split ''Run ID:'' l ! 1))
            (find (contains ''Run ID:'') (rev lines)),
          map_option (\<lambda>l. py_strip (py_split ''Results written to:'' l ! 1))
            (find (\<lambda>l. \<not> contains ''Run ID:'' l \<and> contains ''Results written to:'' l)
               (rev lines)))"
    by (simp add: scan_stdout_last split: option.splits)
  have 2: "run_experiment w wl ou rq rs n t =
          Inr ([Invoke n (build_cmd (ns3_root w) wl ou rq rs), NoRunId n], None)"
    if "engine w n (build_cmd (ns3_root w) wl ou rq rs) = Exited 0 out err"
      and "scan_stdout (py_split newline out) (None, None) = Inr (run_id, out_path)"
      and "run_id = None \<or> run_id = Some [] \<or> out_path = None \<or> out_path = Some []"
  proof -
    from that(3) have "falsy run_id \<or> falsy out_path"
      by (auto simp: falsy_def)
    with that(1,2) show ?thesis
      by (simp add: run_experiment_def)
  qed
  from 1 2 show ?thesis by blast
qed

theorem stdout_markers_witness:
  "scan_stdout
     [''Run ID: first'', ''Results written to: out/a'', ''Run ID: second'',
      ''Results written to: out/b'', ''Run ID:   ''] (None, None) =
     Inr (Some [], Some ''out/b'')
   \<and> engine
        (sample_world\<lparr>engine := \<lambda>n cmd. Exited 0 (''Run ID: first'' @ newline @
            ''Results written to: out/a'' @ newline @ ''Run ID:   '') []\<rparr>)
        1 (build_cmd ''/ns-3/scratch'' ''rpc'' 8 256 256) =
      Exited 0 (''Run ID: first'' @ newline @
            ''Results written to: out/a'' @ newline @ ''Run ID:   '') []
   \<and> run_experiment
        (sample_world\<lparr>engine := \<lambda>n cmd. Exited 0 (''Run ID: first'' @ newline @
            ''Results written to: out/a'' @ newline @ ''Run ID:   '') []\<rparr>)
        ''rpc'' 8 256 256 1 1 =
      Inr ([Invoke 1 (build_cmd ''/ns-3/scratch'' ''rpc'' 8 256 256), NoRunId 1], None)"
proof -
  let ?out = "''Run ID: first'' @ newline @ ''Results written to: out/a'' @ newline @ ''Run ID:   ''"
  let ?w = "sample_world\<lparr>engine := \<lambda>n cmd. Exited 0 ?out []\<rparr>"
  have a: "scan_stdout
     [''Run ID: first'', ''Results written to: out/a'', ''Run ID: second'',
      ''Results written to: out/b'', ''Run ID:   ''] (None, None) =
     Inr (Some [], Some ''out/b'')"
    using stdout_markers [of "[''Run ID: first'', ''Results written to: out/a'',
      ''Run ID: second'', ''Results written to: out/b'', ''Run ID:   '']"]
    by (simp add: py_split_def py_strip_def is_space_def)
  have e: "engine ?w 1 (build_cmd (ns3_root ?w) ''rpc'' 8 256 256) = Exited 0 ?out []"
    by simp
  have s: "scan_stdout (py_split newline ?out) (None, None) = Inr (Some [], Some ''out/a'')"
    by (simp add: newline_def py_split_def marker_value_def py_index_def py_strip_def
        is_space_def)
  have r: "ns3_root ?w = ''/ns-3/scratch''"
    by (simp add: sample_world_simps)
  have "run_experiment ?w ''rpc'' 8 256 256 1 1 =
      Inr ([Invoke 1 (build_cmd (ns3_root ?w) ''rpc'' 8 256 256), NoRunId 1], None)"
    using e s stdout_markers [of "[]" ?w 1 "''rpc''" 8 256 256 ?out "[]" "Some []"
        "Some ''out/a''" 1]
    by blast
  with a e r show ?thesis
    by (simp only:)
qed

text \<open>
  The claim as stated, the result directory of the last line containing its marker, fails
  when that line also contains \<^verbatim>\<open>Run ID:\<close>: the line only sets the run identifier, and
  the result directory stays the one of an earlier line.
\<close>

theorem stdout_last_line_counterexample:
  "scan_stdout [''Results written to: out/a'', ''Run ID: r1 Results written to: out/b'']
     (None, None) = Inr (Some ''r1 Results written to: out/b'', Some ''out/a'')
   \<and> contains ''Results written to:'' ''Run ID: r1 Results written to: out/b''
   \<and> marker_value ''Results written to:'' ''Run ID: r1 Results written to: out/b'' = Inr ''out/b''"
  by (simp add: py_split_def marker_value_def py_index_def py_strip_def is_space_def)

section \<open>The loop over the result root\<close>

lemma rescan_loop_rows:
  "snd (rescan_loop es) = List.map_filter (\<lambda>e. snd (process_dir (fst e) (snd e))) es"
  by (induction es) (auto simp: List.map_filter_simps split: prod.splits option.splits)

lemma rescan_loop_events:
  "fst (rescan_loop es) = concat (map (\<lambda>e. fst (process_dir (fst e) (snd e))) es)"
  by (induction es) (auto split: prod.splits)

lemma map_filter_filter:
  "List.map_filter f xs = map (\<lambda>x. the (f x)) (filter (\<lambda>x. f x \<noteq> None) xs)"
  by (induction xs) (auto simp: List.map_filter_simps split: option.splits)

lemma sort_key_unique:
  fixes f :: "'a \<Rightarrow> 'k :: linorder"
  assumes "distinct (map f ys)" "set ys = set zs" "sorted (map f zs)" "distinct (map f zs)"
  shows "sort_key f ys = zs"
proof -
  have "map f (sort_key f ys) = map f zs"
  proof (rule sorted_distinct_set_unique)
    show "sorted (map f (sort_key f ys))" by simp
    show "distinct (map f (sort_key f ys))"
      using assms(1) by (simp add: distinct_map)
    show "sorted (map f zs)" by (rule assms(3))
    show "distinct (map f zs)" by (rule assms(4))
    show "set (map f (sort_key f ys)) = set (map f zs)"
      using assms(2) by simp
  qed
  moreover have "inj_on f (set (sort_key f ys) \<union> set zs)"
    using assms(2,4) by (simp add: distinct_map)
  ultimately show ?thesis
    by (simp add: inj_on_map_eq_map)
qed

lemma row_cells_all_keys:
  assumes "map fst r = fs" "distinct fs"
  shows "row_cells fs r = map snd r"
proof -
  have "map (\<lambda>key. case map_of r key of None \<Rightarrow> PStr [] | Some v \<Rightarrow> v) (map fst r) = map snd r"
    using assms by (auto simp: map_of_eq_Some_iff [of r] )
  with assms show ?thesis by (simp add: row_cells_def)
qed

lemma process_dir_complete:
  assumes "config_items cfg config_columns = Inr items"
    and "parse_summary s = Inr (p50, p95, p99, completed)"
  shows "process_dir d (Directory (Some (Inr cfg)) (Some s)) =
     ([Processed d],
      Some (items @ [(''p50_ns'', PInt p50), (''p95_ns'', PInt p95), (''p99_ns'', PInt p99),
                     (''completed'', PInt completed),
                     (''out_dir'', PStr (os_path_join RESCAN_OUT_DIR d))]))"
  using assms by (simp add: process_dir_def rescan_row_def)

lemma process_dir_no_summary:
  "process_dir d (Directory c None) = ([Skipping d], None)"
  by (cases c) (simp_all add: process_dir_def)

lemma rescan_cells:
  assumes "config_items cfg config_columns = Inr items"
  shows "row_cells rescan_fieldnames
           (items @ [(''p50_ns'', PInt p50), (''p95_ns'', PInt p95), (''p99_ns'', PInt p99),
                     (''completed'', PInt completed), (''out_dir'', PStr path)]) =
         map snd items @ [PInt p50, PInt p95, PInt p99, PInt completed, PStr path]"
proof -
  have "map fst (items @ [(''p50_ns'', PInt p50), (''p95_ns'', PInt p95), (''p99_ns'', PInt p99),
                     (''completed'', PInt completed), (''out_dir'', PStr path)]) = rescan_fieldnames"
    using config_items_keys [OF assms]
    by (simp add: config_columns_def rescan_fieldnames_def)
  moreover have "distinct rescan_fieldnames"
    by (simp add: rescan_fieldnames_def)
  ultimately have "row_cells rescan_fieldnames
           (items @ [(''p50_ns'', PInt p50), (''p95_ns'', PInt p95), (''p99_ns'', PInt p99),
                     (''completed'', PInt completed), (''out_dir'', PStr path)]) =
         map snd (items @ [(''p50_ns'', PInt p50), (''p95_ns'', PInt p95), (''p99_ns'', PInt p99),
                     (''completed'', PInt completed), (''out_dir'', PStr path)])"
    by (rule row_cells_all_keys)
  then show ?thesis by simp
qed

lemma sample_config_items:
  "config_items (sample_config rid) config_columns =
     Inr [(''run_id'', PStr rid), (''workload'', PStr ''rpc''), (''outstanding'', PInt 8),
          (''req_bytes'', PInt 256), (''rsp_bytes'', PInt 256), (''linkRate'', PStr ''10Gbps''),
          (''linkDelay'', PStr ''50us''), (''mtu'', PInt 1500), (''qdisc'', PStr ''none'')]"
  by (simp add: sample_config_def config_columns_def py_getitem_def)

section \<open>Three complete directories and one without its summary\<close>

text \<open>
  Claim C5. Let the result root hold three run directories whose configuration loads as a
  record with all required keys and whose summary parses, named \<open>d1 < d2 < d3\<close>, one
  directory \<open>d4\<close> without a summary file, and besides them only entries that are not
  directories, each name once. Then the manifest of rescan mode has exactly three data
  rows, those of \<open>d1\<close>, \<open>d2\<close> and \<open>d3\<close> in this order, whatever the order of the listing,
  and the diagnostic that \<open>d4\<close> is skipped is printed.
\<close>

theorem rescan_three_of_four:
  assumes entries: "set entries =
      {(d1, Directory (Some (Inr cfg1)) (Some s1)), (d2, Directory (Some (Inr cfg2)) (Some s2)),
       (d3, Directory (Some (Inr cfg3)) (Some s3)), (d4, Directory c4 None)} \<union> set files"
    and files: "\<forall>e\<in>set files. snd e = NotADirectory"
    and names: "distinct (map fst entries)"
    and order: "d1 < d2" "d2 < d3"
    and cfg: "config_items cfg1 config_columns = Inr items1"
      "config_items cfg2 config_columns = Inr items2"
      "config_items cfg3 config_columns = Inr items3"
    and summ: "parse_summary s1 = Inr (a1, b1, c1, n1)"
      "parse_summary s2 = Inr (a2, b2, c2, n2)"
      "parse_summary s3 = Inr (a3, b3, c3, n3)"
  shows "written (main_rescan (Inr entries)) =
      Some \<lparr>header = rescan_fieldnames,
            data_rows =
              [map snd items1 @ [PInt a1, PInt b1, PInt c1, PInt n1,
                                 PStr (os_path_join RESCAN_OUT_DIR d1)],
               map snd items2 @ [PInt a2, PInt b2, PInt c2, PInt n2,
                                 PStr (os_path_join RESCAN_OUT_DIR d2)],
               map snd items3 @ [PInt a3, PInt b3, PInt c3, PInt n3,
                                 PStr (os_path_join RESCAN_OUT_DIR d3)]]\<rparr>
    \<and> Skipping d4 \<in> set (log (main_rescan (Inr entries)))"
proof -
  let ?e1 = "(d1, Directory (Some (Inr cfg1)) (Some s1))"
  let ?e2 = "(d2, Directory (Some (Inr cfg2)) (Some s2))"
  let ?e3 = "(d3, Directory (Some (Inr cfg3)) (Some s3))"
  let ?e4 = "(d4, Directory c4 None)"
  define f where "f = (\<lambda>e. snd (process_dir (fst e) (snd e)))"
  define r1 where "r1 = items1 @ [(''p50_ns'', PInt a1), (''p95_ns'', PInt b1),
      (''p99_ns'', PInt c1), (''completed'', PInt n1),
      (''out_dir'', PStr (os_path_join RESCAN_OUT_DIR d1))]"
  define r2 where "r2 = items2 @ [(''p50_ns'', PInt a2), (''p95_ns'', PInt b2),
      (''p99_ns'', PInt c2), (''completed'', PInt n2),
      (''out_dir'', PStr (os_path_join RESCAN_OUT_DIR d2))]"
  define r3 where "r3 = items3 @ [(''p50_ns'', PInt a3), (''p95_ns'', PInt b3),
      (''p99_ns'', PInt c3), (''completed'', PInt n3),
      (''out_dir'', PStr (os_path_join RESCAN_OUT_DIR d3))]"
  have f1: "f ?e1 = Some r1"
    using process_dir_complete [OF cfg(1) summ(1)] by (simp add: f_def r1_def)
  have f2: "f ?e2 = Some r2"
    using process_dir_complete [OF cfg(2) summ(2)] by (simp add: f_def r2_def)
  have f3: "f ?e3 = Some r3"
    using process_dir_complete [OF cfg(3) summ(3)] by (simp add: f_def r3_def)
  have f4: "f ?e4 = None"
    by (simp add: f_def process_dir_no_summary)
  have f5: "\<forall>e\<in>set files. f e = None"
    using files by (simp add: f_def process_dir_def)
  have "set (filter (\<lambda>e. f e \<noteq> None) entries) = {e \<in> set entries. f e \<noteq> None}"
    by simp
  also have "\<dots> = {e \<in> {?e1, ?e2, ?e3, ?e4} \<union> set files. f e \<noteq> None}"
    by (simp only: entries)
  also have "\<dots> = {?e1, ?e2, ?e3}"
    using f1 f2 f3 f4 f5 by auto
  finally have s: "set (filter (\<lambda>e. f e \<noteq> None) entries) = set [?e1, ?e2, ?e3]"
    by simp
  have "distinct (map fst (filter (\<lambda>e. f e \<noteq> None) entries))"
    using names by (rule distinct_map_filter)
  moreover have "sorted (map fst [?e1, ?e2, ?e3])" "distinct (map fst [?e1, ?e2, ?e3])"
    using order by auto
  ultimately have "sort_key fst (filter (\<lambda>e. f e \<noteq> None) entries) = [?e1, ?e2, ?e3]"
    using s by (intro sort_key_unique)
  then have "filter (\<lambda>e. f e \<noteq> None) (sort_key fst entries) = [?e1, ?e2, ?e3]"
    by (simp only: filter_sort)
  moreover have "snd (rescan_loop (sort_key fst entries)) =
      map (\<lambda>x. the (f x)) (filter (\<lambda>e. f e \<noteq> None) (sort_key fst entries))"
    unfolding f_def by (simp only: rescan_loop_rows map_filter_filter)
  ultimately have "snd (rescan_loop (sort_key fst entries)) = [r1, r2, r3]"
    using f1 f2 f3 by simp
  then have rows: "map (row_cells rescan_fieldnames) (snd (rescan_loop (sort_key fst entries))) =
      [map snd items1 @ [PInt a1, PInt b1, PInt c1, PInt n1, PStr (os_path_join RESCAN_OUT_DIR d1)],
       map snd items2 @ [PInt a2, PInt b2, PInt c2, PInt n2, PStr (os_path_join RESCAN_OUT_DIR d2)],
       map snd items3 @ [PInt a3, PInt b3, PInt c3, PInt n3, PStr (os_path_join RESCAN_OUT_DIR d3)]]"
    using rescan_cells [OF cfg(1)] rescan_cells [OF cfg(2)] rescan_cells [OF cfg(3)]
    by (simp add: r1_def r2_def r3_def)
  have "?e4 \<in> set (sort_key fst entries)"
    using entries by simp
  moreover have "Skipping d4 \<in> set (fst (process_dir (fst ?e4) (snd ?e4)))"
    by (simp add: process_dir_no_summary)
  ultimately have "Skipping d4 \<in> set (fst (rescan_loop (sort_key fst entries)))"
    unfolding rescan_loop_events set_concat set_map by blast
  then have "Skipping d4 \<in> set (log (main_rescan (Inr entries)))"
    by (simp add: main_rescan_log)
  with rows show ?thesis
    by (simp add: main_rescan_written)
qed

theorem rescan_three_of_four_witness:
  "''run_a'' < ''run_b'' \<and> ''run_b'' < ''run_c''
   \<and> written (main_rescan (Inr
        [(''run_c'', Directory (Some (Inr (sample_config ''c''))) (Some (Inr sample_summary))),
         (''run_b2'', Directory (Some (Inr (sample_config ''b2''))) None),
         (''manifest.csv'', NotADirectory),
         (''run_a'', Directory (Some (Inr (sample_config ''a''))) (Some (Inr sample_summary))),
         (''run_b'', Directory (Some (Inr (sample_config ''b''))) (Some (Inr sample_summary)))])) =
      Some \<lparr>header = rescan_fieldnames,
            data_rows =
              [[PStr ''a'', PStr ''rpc'', PInt 8, PInt 256, PInt 256, PStr ''10Gbps'',
                PStr ''50us'', PInt 1500, PStr ''none'', PInt 1234, PInt 5678, PInt 9999,
                PInt 9000, PStr ''../out/sim/run_a''],
               [PStr ''b'', PStr ''rpc'', PInt 8, PInt 256, PInt 256, PStr ''10Gbps'',
                PStr ''50us'', PInt 1500, PStr ''none'', PInt 1234, PInt 5678, PInt 9999,
                PInt 9000, PStr ''../out/sim/run_b''],
               [PStr ''c'', PStr ''rpc'', PInt 8, PInt 256, PInt 256, PStr ''10Gbps'',
                PStr ''50us'', PInt 1500, PStr ''none'', PInt 1234, PInt 5678, PInt 9999,
                PInt 9000, PStr ''../out/sim/run_c'']]\<rparr>
   \<and> Skipping ''run_b2'' \<in> set (log (main_rescan (Inr
        [(''run_c'', Directory (Some (Inr (sample_config ''c''))) (Some (Inr sample_summary))),
         (''run_b2'', Directory (Some (Inr (sample_config ''b2''))) None),
         (''manifest.csv'', NotADirectory),
         (''run_a'', Directory (Some (Inr (sample_config ''a''))) (Some (Inr sample_summary))),
         (''run_b'', Directory (Some (Inr (sample_config ''b''))) (Some (Inr sample_summary)))])))"
proof -
  let ?entries = "[(''run_c'', Directory (Some (Inr (sample_config ''c''))) (Some (Inr sample_summary))),
         (''run_b2'', Directory (Some (Inr (sample_config ''b2''))) None),
         (''manifest.csv'', NotADirectory),
         (''run_a'', Directory (Some (Inr (sample_config ''a''))) (Some (Inr sample_summary))),
         (''run_b'', Directory (Some (Inr (sample_config ''b''))) (Some (Inr sample_summary)))]"
  have e: "set ?entries =
      {(''run_a'', Directory (Some (Inr (sample_config ''a''))) (Some (Inr sample_summary))),
       (''run_b'', Directory (Some (Inr (sample_config ''b''))) (Some (Inr sample_summary))),
       (''run_c'', Directory (Some (Inr (sample_config ''c''))) (Some (Inr sample_summary))),
       (''run_b2'', Directory (Some (Inr (sample_config ''b2''))) None)}
      \<union> set [(''manifest.csv'', NotADirectory)]"
    by auto
  have f: "\<forall>e\<in>set [(''manifest.csv'', NotADirectory)]. snd e = NotADirectory"
    by simp
  have n: "distinct (map fst ?entries)"
    by simp
  have o: "''run_a'' < ''run_b''" "''run_b'' < ''run_c''"
    by simp_all
  have p: "os_path_join RESCAN_OUT_DIR ''run_a'' = ''../out/sim/run_a''"
    "os_path_join RESCAN_OUT_DIR ''run_b'' = ''../out/sim/run_b''"
    "os_path_join RESCAN_OUT_DIR ''run_c'' = ''../out/sim/run_c''"
    by (simp_all add: os_path_join_def RESCAN_OUT_DIR_def)
  show ?thesis
    using o rescan_three_of_four [OF e f n o sample_config_items sample_config_items
        sample_config_items sample_summary_parses sample_summary_parses sample_summary_parses]
    by (simp only: p list.map snd_conv append.simps)
qed

section \<open>The two loops of the summary parser\<close>

lemma completed_loop_last:
  "completed_loop ls c = Inr v \<Longrightarrow>
   (case find (contains ''Completed:'') (rev ls) of
      None \<Rightarrow> v = c
    | Some l \<Rightarrow> parse_completed l = Inr v)"
proof (induction ls arbitrary: c)
  case Nil
  then show ?case by simp
next
  case (Cons l ls)
  show ?case
  proof (cases "contains ''Completed:'' l")
    case True
    with Cons.prems obtain u where u: "parse_completed l = Inr u" "completed_loop ls u = Inr v"
      by (auto split: sum.splits)
    from Cons.IH [OF u(2)] u(1) True show ?thesis
      by (auto simp: find_snoc split: option.splits)
  next
    case False
    with Cons.prems have "completed_loop ls c = Inr v" by simp
    from Cons.IH [OF this] False show ?thesis
      by (auto simp: find_snoc split: option.splits)
  qed
qed


lemma completed_loop_absent:
  "\<forall>l\<in>set ls. \<not> contains ''Completed:'' l \<Longrightarrow> completed_loop ls c = Inr c"
  by (induction ls arbitrary: c) auto


lemma taken_from_Nil: "taken_from parse P [] init v = (v = init)"
  by (simp add: taken_from_def)

lemma taken_from_skip:
  "\<not> P l \<Longrightarrow> taken_from parse P (l # ls) init v = taken_from parse P ls init v"
  by (simp add: taken_from_def find_snoc split: option.splits)

lemma taken_from_set:
  "P l \<Longrightarrow> parse l = Inr u \<Longrightarrow>
   taken_from parse P (l # ls) init v = taken_from parse P ls u v"
  by (auto simp: taken_from_def find_snoc split: option.splits)

lemma taken_from_absent:
  "\<forall>l\<in>set ls. \<not> P l \<Longrightarrow> taken_from parse P ls init v = (v = init)"
  by (induction ls) (simp_all add: taken_from_Nil taken_from_skip)

lemma completed_loop_taken:
  "completed_loop ls c = Inr v \<Longrightarrow> taken_from parse_completed (contains ''Completed:'') ls c v"
  using completed_loop_last [of ls c v] by (simp add: taken_from_def)

lemma latency_loop_taken:
  "latency_loop ls flag (a, b, c) = Inr (a', b', c') \<Longrightarrow>
   taken_from parse_latency (contains ''p50:'') (ns_section flag ls) a a'
   \<and> taken_from parse_latency (\<lambda>l. \<not> contains ''p50:'' l \<and> contains ''p95:'' l)
         (ns_section flag ls) b b'
   \<and> taken_from parse_latency
         (\<lambda>l. \<not> contains ''p50:'' l \<and> \<not> contains ''p95:'' l \<and> contains ''p99:'' l)
         (ns_section flag ls) c c'"
proof (induction ls arbitrary: flag a b c)
  case Nil
  then show ?case by (simp add: taken_from_Nil)
next
  case (Cons l ls)
  show ?case
  proof (cases "contains LATENCY_NS l")
    case True
    with Cons.prems have "latency_loop ls True (a, b, c) = Inr (a', b', c')" by simp
    from Cons.IH [OF this] True show ?thesis by simp
  next
    case ns: False
    show ?thesis
    proof (cases "contains LATENCY_US l")
      case True
      with ns Cons.prems have "latency_loop ls False (a, b, c) = Inr (a', b', c')" by simp
      from Cons.IH [OF this] ns True show ?thesis by simp
    next
      case us: False
      show ?thesis
      proof (cases flag)
        case False
        with ns us Cons.prems have "latency_loop ls False (a, b, c) = Inr (a', b', c')" by simp
        from Cons.IH [OF this] ns us False show ?thesis by simp
      next
        case True
        consider (p50) "contains ''p50:'' l"
          | (p95) "\<not> contains ''p50:'' l" "contains ''p95:'' l"
          | (p99) "\<not> contains ''p50:'' l" "\<not> contains ''p95:'' l" "contains ''p99:'' l"
          | (none) "\<not> contains ''p50:'' l" "\<not> contains ''p95:'' l" "\<not> contains ''p99:'' l"
          by blast
        then show ?thesis
        proof cases
          case p50
          with ns us True Cons.prems obtain u where
            u: "parse_latency l = Inr u" "latency_loop ls True (u, b, c) = Inr (a', b', c')"
            by (auto split: sum.splits)
          from Cons.IH [OF u(2)] ns us True p50 u(1) show ?thesis
            by (simp add: taken_from_skip taken_from_set)
        next
          case p95
          with ns us True Cons.prems obtain u where
            u: "parse_latency l = Inr u" "latency_loop ls True (a, u, c) = Inr (a', b', c')"
            by (auto split: sum.splits)
          from Cons.IH [OF u(2)] ns us True p95 u(1) show ?thesis
            by (simp add: taken_from_skip taken_from_set)
        next
          case p99
          with ns us True Cons.prems obtain u where
            u: "parse_latency l = Inr u" "latency_loop ls True (a, b, u) = Inr (a', b', c')"
            by (auto split: sum.splits)
          from Cons.IH [OF u(2)] ns us True p99 u(1) show ?thesis
            by (simp add: taken_from_skip taken_from_set)
        next
          case none
          with ns us True Cons.prems have "latency_loop ls True (a, b, c) = Inr (a', b', c')"
            by simp
          from Cons.IH [OF this] ns us True none show ?thesis
            by (simp add: taken_from_skip)
        qed
      qed
    qed
  qed
qed



lemma latency_loop_before_section:
  "\<forall>l\<in>set pre. \<not> contains LATENCY_NS l \<Longrightarrow>
   latency_loop (pre @ rest) False (a, b, c) = latency_loop rest False (a, b, c)"
  by (induction pre) auto

lemma latency_loop_after_section:
  "\<forall>l\<in>set post. \<not> contains LATENCY_NS l \<Longrightarrow>
   (flag \<longrightarrow> (\<forall>l\<in>set (takeWhile (\<lambda>l. \<not> contains LATENCY_US l) post).
       \<not> contains ''p50:'' l \<and> \<not> contains ''p95:'' l \<and> \<not> contains ''p99:'' l)) \<Longrightarrow>
   latency_loop post flag ps = Inr ps"
proof (induction post arbitrary: flag)
  case Nil
  show ?case by simp
next
  case (Cons l post)
  obtain a b c where ps: "ps = (a, b, c)" by (cases ps)
  from Cons.prems(1) have ns: "\<not> contains LATENCY_NS l" and rest: "\<forall>l\<in>set post. \<not> contains LATENCY_NS l"
    by simp_all
  show ?case
  proof (cases "contains LATENCY_US l")
    case True
    with ns Cons.IH [OF rest, of False] show ?thesis by (simp add: ps)
  next
    case us: False
    show ?thesis
    proof (cases flag)
      case False
      with ns us Cons.IH [OF rest, of False] show ?thesis by (simp add: ps)
    next
      case True
      with us Cons.prems(2) have
        l: "\<not> contains ''p50:'' l" "\<not> contains ''p95:'' l" "\<not> contains ''p99:'' l"
        and more: "\<forall>l\<in>set (takeWhile (\<lambda>l. \<not> contains LATENCY_US l) post).
          \<not> contains ''p50:'' l \<and> \<not> contains ''p95:'' l \<and> \<not> contains ''p99:'' l"
        by simp_all
      with ns us True Cons.IH [OF rest, of True] show ?thesis by (simp add: ps)
    qed
  qed
qed

lemma completed_loop_const:
  "\<forall>l\<in>set ls. contains ''Completed:'' l \<longrightarrow> parse_completed l = Inr n \<Longrightarrow>
   completed_loop ls c = Inr (if \<exists>l\<in>set ls. contains ''Completed:'' l then n else c)"
  by (induction ls arbitrary: c) auto

lemma example_lines:
  "parse_completed ''Completed: 9000/10000'' = Inr 9000"
  "parse_latency ''p50: 1234.0'' = Inr 1234"
  "parse_latency ''p95: 5678.0'' = Inr 5678"
  "parse_latency ''p99: 9999.0'' = Inr 9999"
  by (simp_all add: parse_completed_def parse_latency_def line_field_def py_split_def
      py_index_def py_strip_def is_space_def number_defs)

lemma example_labels:
  "\<not> contains LATENCY_NS ''p50: 1234.0''" "\<not> contains LATENCY_US ''p50: 1234.0''"
  "\<not> contains LATENCY_NS ''p95: 5678.0''" "\<not> contains LATENCY_US ''p95: 5678.0''"
  "\<not> contains LATENCY_NS ''p99: 9999.0''" "\<not> contains LATENCY_US ''p99: 9999.0''"
  "contains ''p50:'' ''p50: 1234.0''"
  "\<not> contains ''p50:'' ''p95: 5678.0''" "contains ''p95:'' ''p95: 5678.0''"
  "\<not> contains ''p50:'' ''p99: 9999.0''" "\<not> contains ''p95:'' ''p99: 9999.0''"
  "contains ''p99:'' ''p99: 9999.0''"
  "\<not> contains ''Completed:'' ''p50: 1234.0''" "\<not> contains ''Completed:'' ''p95: 5678.0''"
  "\<not> contains ''Completed:'' ''p99: 9999.0''"
  "contains ''Completed:'' ''Completed: 9000/10000''"
  by (simp_all add: LATENCY_NS_def LATENCY_US_def)

lemma example_section:
  assumes "contains LATENCY_NS hdr"
  shows "latency_loop ([hdr, ''p50: 1234.0'', ''p95: 5678.0'', ''p99: 9999.0''] @ post) flag (a, b, c) =
     latency_loop post True (1234, 5678, 9999)"
proof -
  have "latency_loop ([hdr, ''p50: 1234.0'', ''p95: 5678.0'', ''p99: 9999.0''] @ post) flag (a, b, c) =
      latency_loop (''p50: 1234.0'' # ''p95: 5678.0'' # ''p99: 9999.0'' # post) True (a, b, c)"
    using assms by simp
  also have "\<dots> = latency_loop (''p95: 5678.0'' # ''p99: 9999.0'' # post) True (1234, b, c)"
    by (simp only: latency_loop.simps example_labels example_lines if_True if_False sum.case)
  also have "\<dots> = latency_loop (''p99: 9999.0'' # post) True (1234, 5678, c)"
    by (simp only: latency_loop.simps example_labels example_lines if_True if_False sum.case)
  also have "\<dots> = latency_loop post True (1234, 5678, 9999)"
    by (simp only: latency_loop.simps example_labels example_lines if_True if_False sum.case)
  finally show ?thesis .
qed

section \<open>The summary of the interface description\<close>

text \<open>
  Claim C2. Let the lines of a summary consist of lines \<open>pre\<close>, a header line containing
  \<^verbatim>\<open>Latency (ns):\<close>, the three lines \<^verbatim>\<open>p50: 1234.0\<close>, \<^verbatim>\<open>p95: 5678.0\<close>, \<^verbatim>\<open>p99: 9999.0\<close>,
  and lines \<open>post\<close>, where no other line opens a nanosecond section, the lines after the
  three up to the microsecond header carry no percentile label, and
  \<^verbatim>\<open>Completed: 9000/10000\<close> is among the lines and is the only line containing
  \<^verbatim>\<open>Completed:\<close>. Then both parsers return \<open>(1234, 5678, 9999, 9000)\<close>.
\<close>

theorem summary_example:
  assumes lines: "py_split newline content =
      pre @ [hdr, ''p50: 1234.0'', ''p95: 5678.0'', ''p99: 9999.0''] @ post"
    and hdr: "contains LATENCY_NS hdr"
    and pre: "\<forall>l\<in>set pre. \<not> contains LATENCY_NS l"
    and post: "\<forall>l\<in>set post. \<not> contains LATENCY_NS l"
    and post_labels: "\<forall>l\<in>set (takeWhile (\<lambda>l. \<not> contains LATENCY_US l) post).
        \<not> contains ''p50:'' l \<and> \<not> contains ''p95:'' l \<and> \<not> contains ''p99:'' l"
    and completed: "''Completed: 9000/10000'' \<in> set pre \<union> set post"
    and only: "\<forall>l\<in>set pre \<union> set post \<union> {hdr}.
        contains ''Completed:'' l \<longrightarrow> l = ''Completed: 9000/10000''"
  shows "parse_summary (Inr content) = Inr (1234, 5678, 9999, 9000)
    \<and> extract_stats (Inr content) = (1234, 5678, 9999, 9000)"
proof -
  define sect where "sect = [hdr, ''p50: 1234.0'', ''p95: 5678.0'', ''p99: 9999.0'']"
  have mem: "set (pre @ sect @ post) =
      set pre \<union> set post \<union> {hdr} \<union> {''p50: 1234.0'', ''p95: 5678.0'', ''p99: 9999.0''}"
    unfolding sect_def by auto
  have "\<forall>l\<in>set (pre @ sect @ post). contains ''Completed:'' l \<longrightarrow> parse_completed l = Inr 9000"
  proof (intro ballI impI)
    fix l assume l: "l \<in> set (pre @ sect @ post)" and c: "contains ''Completed:'' l"
    from l mem have "l \<in> set pre \<union> set post \<union> {hdr}
        \<or> l \<in> {''p50: 1234.0'', ''p95: 5678.0'', ''p99: 9999.0''}"
      by blast
    then show "parse_completed l = Inr 9000"
    proof
      assume "l \<in> set pre \<union> set post \<union> {hdr}"
      with only c have "l = ''Completed: 9000/10000''" by blast
      then show ?thesis by (simp only: example_lines)
    next
      assume "l \<in> {''p50: 1234.0'', ''p95: 5678.0'', ''p99: 9999.0''}"
      then have "\<not> contains ''Completed:'' l"
        using example_labels(13-15) by blast
      with c show ?thesis by blast
    qed
  qed
  moreover have "\<exists>l\<in>set (pre @ sect @ post). contains ''Completed:'' l"
  proof -
    from completed mem have "''Completed: 9000/10000'' \<in> set (pre @ sect @ post)" by blast
    with example_labels(16) show ?thesis by blast
  qed
  ultimately have c: "completed_loop (pre @ sect @ post) 0 = Inr 9000"
    using completed_loop_const [of "pre @ sect @ post" 9000 0] by (simp only: if_True)
  have "latency_loop (pre @ sect @ post) False (0, 0, 0) =
      latency_loop (sect @ post) False (0, 0, 0)"
    using pre by (rule latency_loop_before_section)
  also have "\<dots> = latency_loop post True (1234, 5678, 9999)"
    unfolding sect_def using hdr by (rule example_section)
  also have "\<dots> = Inr (1234, 5678, 9999)"
    using post post_labels by (intro latency_loop_after_section) blast+
  finally have l: "latency_loop (pre @ sect @ post) False (0, 0, 0) = Inr (1234, 5678, 9999)" .
  have "py_split newline content = pre @ sect @ post"
    using lines by (simp only: sect_def)
  then have "summary_scan content = Inr (1234, 5678, 9999, 9000)"
    using c l by (simp add: summary_scan_def)
  then show ?thesis
    by (simp add: parse_summary_def extract_stats_def extract_stats_run_def)
qed

theorem summary_example_witness:
  "py_split newline sample_summary =
     [''Completed: 9000/10000''] @
     [''Latency (ns):'', ''p50: 1234.0'', ''p95: 5678.0'', ''p99: 9999.0''] @
     [LATENCY_US, ''p50: 1.234'', ''p95: 5.678'', ''p99: 9.999'', []]
   \<and> parse_summary (Inr sample_summary) = Inr (1234, 5678, 9999, 9000)
   \<and> extract_stats (Inr sample_summary) = (1234, 5678, 9999, 9000)"
proof -
  let ?post = "[LATENCY_US, ''p50: 1.234'', ''p95: 5.678'', ''p99: 9.999'', []]"
  have 1: "py_split newline sample_summary =
     [''Completed: 9000/10000''] @
     [''Latency (ns):'', ''p50: 1234.0'', ''p95: 5678.0'', ''p99: 9999.0''] @ ?post"
    by (simp add: sample_summary_def newline_def py_split_def LATENCY_US_def)
  have 2: "contains LATENCY_NS ''Latency (ns):''"
    by (simp add: LATENCY_NS_def)
  have 3: "\<forall>l\<in>set [''Completed: 9000/10000'']. \<not> contains LATENCY_NS l"
    by (simp add: LATENCY_NS_def)
  have 4: "\<forall>l\<in>set ?post. \<not> contains LATENCY_NS l"
    by (simp add: LATENCY_NS_def LATENCY_US_def)
  have 5: "\<forall>l\<in>set (takeWhile (\<lambda>l. \<not> contains LATENCY_US l) ?post).
        \<not> contains ''p50:'' l \<and> \<not> contains ''p95:'' l \<and> \<not> contains ''p99:'' l"
    by (simp add: LATENCY_US_def)
  have 6: "''Completed: 9000/10000'' \<in> set [''Completed: 9000/10000''] \<union> set ?post"
    by simp
  have 7: "\<forall>l\<in>set [''Completed: 9000/10000''] \<union> set ?post \<union> {''Latency (ns):''}.
        contains ''Completed:'' l \<longrightarrow> l = ''Completed: 9000/10000''"
    by (simp add: LATENCY_US_def)
  show ?thesis
    using 1 summary_example [OF 1 2 3 4 5 6 7] by (simp only:) 
qed

section \<open>What the shared body of the parsers returns\<close>









section \<open>Fields that are not found\<close>



lemma bad_p50_stats:
  "extract_stats_run (Inr (''Completed: 5/10'' @ newline @ ''Latency (ns):'' @ newline @
      ''p50: abc'')) = (Some ValueError, (0, 0, 0, 5))"
  by (simp add: extract_stats_run_def summary_scan_def newline_def
      py_split_def LATENCY_NS_def LATENCY_US_def parse_completed_def parse_latency_def
      line_field_def py_index_def py_strip_def is_space_def number_defs)

lemma bad_p50_raises:
  "parse_summary (Inr (''Completed: 5/10'' @ newline @ ''Latency (ns):'' @ newline @
      ''p50: abc'')) = Inl ValueError"
  by (simp add: parse_summary_def summary_scan_def newline_def
      py_split_def LATENCY_NS_def LATENCY_US_def parse_completed_def parse_latency_def
      line_field_def py_index_def py_strip_def is_space_def number_defs)

section \<open>Exceptions in the summary parser\<close>

lemma completed_loop_raises_at:
  "completed_loop ls c = Inl (e, v) \<Longrightarrow>
   \<exists>before l after. ls = before @ l # after \<and> contains ''Completed:'' l
     \<and> parse_completed l = Inl e \<and> completed_loop before c = Inr v"
proof (induction ls arbitrary: c)
  case Nil
  then show ?case by simp
next
  case (Cons x xs)
  have extend: ?case if step: "\<And>rest. completed_loop (x # rest) c = completed_loop rest c'" for c'
  proof -
    from Cons.prems step have "completed_loop xs c' = Inl (e, v)" by simp
    from Cons.IH [OF this] obtain bf l af where
      h: "xs = bf @ l # af" "contains ''Completed:'' l" "parse_completed l = Inl e"
        "completed_loop bf c' = Inr v"
      by blast
    have "x # xs = (x # bf) @ l # af" using h(1) by simp
    moreover have "completed_loop (x # bf) c = Inr v" using step h(4) by simp
    ultimately show ?thesis using h(2,3) by blast
  qed
  show ?case
  proof (cases "contains ''Completed:'' x")
    case False
    show ?thesis by (rule extend [of c]) (simp add: False)
  next
    case True
    show ?thesis
    proof (cases "parse_completed x")
      case (Inr u)
      show ?thesis by (rule extend [of u]) (simp add: True Inr)
    next
      case (Inl e')
      with True Cons.prems have "e' = e" "v = c" by simp_all
      with True Inl have "x # xs = [] @ x # xs \<and> contains ''Completed:'' x
          \<and> parse_completed x = Inl e \<and> completed_loop [] c = Inr v"
        by simp
      then show ?thesis by blast
    qed
  qed
qed

lemma latency_loop_raises_at:
  "latency_loop ls flag (a, b, c) = Inl (e, (a', b', c')) \<Longrightarrow>
   \<exists>before l after. ls = before @ l # after \<and> parse_latency l = Inl e
     \<and> latency_loop before flag (a, b, c) = Inr (a', b', c')
     \<and> latency_loop (before @ [l]) flag (a, b, c) = Inl (e, (a', b', c'))"
proof (induction ls arbitrary: flag a b c)
  case Nil
  then show ?case by simp
next
  case (Cons x xs)
  have extend: ?case
    if step: "\<And>rest. latency_loop (x # rest) flag (a, b, c) = latency_loop rest F (p, q, r)"
    for F p q r
  proof -
    from Cons.prems step have "latency_loop xs F (p, q, r) = Inl (e, (a', b', c'))" by simp
    from Cons.IH [OF this] obtain bf l af where
      h: "xs = bf @ l # af" "parse_latency l = Inl e"
        "latency_loop bf F (p, q, r) = Inr (a', b', c')"
        "latency_loop (bf @ [l]) F (p, q, r) = Inl (e, (a', b', c'))"
      by blast
    have "x # xs = (x # bf) @ l # af" using h(1) by simp
    moreover have "latency_loop (x # bf) flag (a, b, c) = Inr (a', b', c')"
      using step h(3) by simp
    moreover have "latency_loop ((x # bf) @ [l]) flag (a, b, c) = Inl (e, (a', b', c'))"
      using step [of "bf @ [l]"] h(4) by simp
    ultimately show ?thesis using h(2) by blast
  qed
  have stop: ?case
    if f: "parse_latency x = Inl e'"
      and r: "\<And>rest. latency_loop (x # rest) flag (a, b, c) = Inl (e', (a, b, c))"
    for e'
  proof -
    from Cons.prems r have "e' = e" "a' = a" "b' = b" "c' = c" by simp_all
    with f r [of "[]"] have "x # xs = [] @ x # xs \<and> parse_latency x = Inl e
        \<and> latency_loop [] flag (a, b, c) = Inr (a', b', c')
        \<and> latency_loop ([] @ [x]) flag (a, b, c) = Inl (e, (a', b', c'))"
      by simp
    then show ?thesis by blast
  qed
  show ?case
  proof (cases "contains LATENCY_NS x")
    case True
    show ?thesis by (rule extend [of True a b c]) (simp add: True)
  next
    case ns: False
    show ?thesis
    proof (cases "contains LATENCY_US x")
      case True
      show ?thesis by (rule extend [of False a b c]) (simp add: ns True)
    next
      case us: False
      show ?thesis
      proof (cases flag)
        case False
        show ?thesis by (rule extend [of False a b c]) (simp add: ns us False)
      next
        case True
        consider (p50) "contains ''p50:'' x"
          | (p95) "\<not> contains ''p50:'' x" "contains ''p95:'' x"
          | (p99) "\<not> contains ''p50:'' x" "\<not> contains ''p95:'' x" "contains ''p99:'' x"
          | (none) "\<not> contains ''p50:'' x" "\<not> contains ''p95:'' x" "\<not> contains ''p99:'' x"
          by blast
        then show ?thesis
        proof cases
          case p50
          show ?thesis
          proof (cases "parse_latency x")
            case (Inl e')
            show ?thesis by (rule stop [OF Inl]) (simp add: ns us True p50 Inl)
          next
            case (Inr u)
            show ?thesis by (rule extend [of True u b c]) (simp add: ns us True p50 Inr)
          qed
        next
          case p95
          show ?thesis
          proof (cases "parse_latency x")
            case (Inl e')
            show ?thesis by (rule stop [OF Inl]) (simp add: ns us True p95 Inl)
          next
            case (Inr u)
            show ?thesis by (rule extend [of True a u c]) (simp add: ns us True p95 Inr)
          qed
        next
          case p99
          show ?thesis
          proof (cases "parse_latency x")
            case (Inl e')
            show ?thesis by (rule stop [OF Inl]) (simp add: ns us True p99 Inl)
          next
            case (Inr u)
            show ?thesis by (rule extend [of True a b u]) (simp add: ns us True p99 Inr)
          qed
        next
          case none
          show ?thesis by (rule extend [of True a b c]) (simp add: ns us True none)
        qed
      qed
    qed
  qed
qed


lemma summary_scan_raises_at:
  assumes "summary_scan content = Inl (e, (a, b, c, d))"
  shows "\<exists>before l after. py_split newline content = before @ l # after
     \<and> ((contains ''Completed:'' l \<and> parse_completed l = Inl e
           \<and> completed_loop before 0 = Inr d \<and> a = 0 \<and> b = 0 \<and> c = 0)
        \<or> (completed_loop (py_split newline content) 0 = Inr d
           \<and> parse_latency l = Inl e
           \<and> latency_loop before False (0, 0, 0) = Inr (a, b, c)
           \<and> latency_loop (before @ [l]) False (0, 0, 0) = Inl (e, (a, b, c))))"
proof (cases "completed_loop (py_split newline content) 0")
  case (Inl p)
  obtain e' v where p: "p = (e', v)" by (cases p)
  with Inl assms have z: "a = 0" "b = 0" "c = 0" "v = d" "e' = e"
    by (simp_all add: summary_scan_def Let_def)
  from Inl p z have "completed_loop (py_split newline content) 0 = Inl (e, d)" by simp
  from completed_loop_raises_at [OF this] z show ?thesis by blast
next
  case (Inr v)
  show ?thesis
  proof (cases "latency_loop (py_split newline content) False (0, 0, 0)")
    case r: (Inr t)
    with Inr assms show ?thesis
      by (cases t) (simp add: summary_scan_def Let_def)
  next
    case (Inl q)
    obtain e' a' b' c' where q: "q = (e', (a', b', c'))" by (cases q) auto
    with Inl Inr assms have eq: "a' = a" "b' = b" "c' = c" "v = d" "e' = e"
      by (simp_all add: summary_scan_def Let_def)
    from Inl q eq have
      "latency_loop (py_split newline content) False (0, 0, 0) = Inl (e, (a, b, c))" by simp
    from latency_loop_raises_at [OF this] Inr eq show ?thesis by blast
  qed
qed

lemma late_p50_stats:
  "extract_stats_run (Inr (''Latency (ns):'' @ newline @ ''p50: abc'' @ newline @ ''p95: 7'')) =
     (Some ValueError, (0, 0, 0, 0))"
  by (simp add: extract_stats_run_def summary_scan_def newline_def
      py_split_def LATENCY_NS_def LATENCY_US_def parse_completed_def parse_latency_def
      line_field_def py_index_def py_strip_def is_space_def number_defs)

lemma late_p50_raises:
  "parse_summary (Inr (''Latency (ns):'' @ newline @ ''p50: abc'' @ newline @ ''p95: 7'')) =
     Inl ValueError"
  by (simp add: parse_summary_def summary_scan_def newline_def
      py_split_def LATENCY_NS_def LATENCY_US_def parse_completed_def parse_latency_def
      line_field_def py_index_def py_strip_def is_space_def number_defs)

lemma late_p50_loops:
  "py_split newline (''Latency (ns):'' @ newline @ ''p50: abc'' @ newline @ ''p95: 7'') =
     [''Latency (ns):'', ''p50: abc'', ''p95: 7'']"
  "latency_loop [''Latency (ns):''] False (0, 0, 0) = Inr (0, 0, 0)"
  "latency_loop [''Latency (ns):'', ''p50: abc''] False (0, 0, 0) = Inl (ValueError, (0, 0, 0))"
  "parse_latency ''p95: 7'' = Inr 7"
  by (simp_all add: newline_def
      py_split_def LATENCY_NS_def LATENCY_US_def parse_latency_def
      line_field_def py_index_def py_strip_def is_space_def number_defs)

text \<open>
  Claim C4, as the code has it. In live mode \<^verbatim>\<open>extract_stats\<close> never raises: when the file
  cannot be opened it prints a warning and returns \<open>(0, 0, 0, 0)\<close>; when a line raises
  while the text is parsed it prints a warning and returns the four variables as the lines
  before that line have left them. If the line is a \<^verbatim>\<open>Completed:\<close> line, the completed count
  is what the first loop gives on the lines before it, and the percentiles are 0. If the
  line is a percentile line, the completed count is that of the whole text and the
  percentiles are what the second loop gives on the lines before it. Either way a field is
  the value of the last line before the failing one that carries its label, or 0. In
  rescan mode \<^verbatim>\<open>parse_summary\<close> has no handler and raises, on a file that cannot be opened
  as on a malformed line; the loop of rescan mode catches the exception, prints a
  diagnostic and appends no row for the directory. Where \<^verbatim>\<open>parse_summary\<close> returns,
  \<^verbatim>\<open>extract_stats\<close> returns the same tuple and prints no warning.
\<close>

theorem parser_exceptions:
  "extract_stats_run (Inl e) = (Some e, (0, 0, 0, 0))
   \<and> parse_summary (Inl e) = Inl e
   \<and> (parse_summary (Inr content) = Inr t \<longrightarrow> extract_stats_run (Inr content) = (None, t))
   \<and> (parse_summary (Inr content) = Inl e' \<longrightarrow> fst (extract_stats_run (Inr content)) = Some e')
   \<and> (parse_summary (Inr content) = Inl e' \<and> extract_stats (Inr content) = (a, b, c, d) \<longrightarrow>
        (\<exists>before l after. py_split newline content = before @ l # after
           \<and> ((contains ''Completed:'' l \<and> parse_completed l = Inl e'
                 \<and> completed_loop before 0 = Inr d
                 \<and> taken_from parse_completed (contains ''Completed:'') before 0 d
                 \<and> a = 0 \<and> b = 0 \<and> c = 0)
              \<or> (completed_loop (py_split newline content) 0 = Inr d
                 \<and> taken_from parse_completed (contains ''Completed:'')
                      (py_split newline content) 0 d
                 \<and> parse_latency l = Inl e'
                 \<and> latency_loop before False (0, 0, 0) = Inr (a, b, c)
                 \<and> latency_loop (before @ [l]) False (0, 0, 0) = Inl (e', (a, b, c))
                 \<and> taken_from parse_latency (contains ''p50:'') (ns_section False before) 0 a
                 \<and> taken_from parse_latency (\<lambda>l. \<not> contains ''p50:'' l \<and> contains ''p95:'' l)
                      (ns_section False before) 0 b
                 \<and> taken_from parse_latency
                      (\<lambda>l. \<not> contains ''p50:'' l \<and> \<not> contains ''p95:'' l \<and> contains ''p99:'' l)
                      (ns_section False before) 0 c))))
   \<and> (parse_summary s = Inl e'' \<longrightarrow>
        process_dir run_dir (Directory (Some (Inr config)) (Some s)) =
          ([ErrorProcessing run_dir e''], None))"
proof -
  have 1: "extract_stats_run (Inl e) = (Some e, (0, 0, 0, 0))"
    by (simp add: extract_stats_run_def)
  have 2: "parse_summary (Inl e) = Inl e"
    by (simp add: parse_summary_def)
  have 3: "extract_stats_run (Inr content) = (None, t)"
    if "parse_summary (Inr content) = Inr t"
    using that by (auto simp: parse_summary_def extract_stats_run_def split: sum.splits)
  have 4: "fst (extract_stats_run (Inr content)) = Some e'"
    if "parse_summary (Inr content) = Inl e'"
    using that by (auto simp: parse_summary_def extract_stats_run_def split: sum.splits)
  have 5: "\<exists>before l after. py_split newline content = before @ l # after
           \<and> ((contains ''Completed:'' l \<and> parse_completed l = Inl e'
                 \<and> completed_loop before 0 = Inr d
                 \<and> taken_from parse_completed (contains ''Completed:'') before 0 d
                 \<and> a = 0 \<and> b = 0 \<and> c = 0)
              \<or> (completed_loop (py_split newline content) 0 = Inr d
                 \<and> taken_from parse_completed (contains ''Completed:'')
                      (py_split newline content) 0 d
                 \<and> parse_latency l = Inl e'
                 \<and> latency_loop before False (0, 0, 0) = Inr (a, b, c)
                 \<and> latency_loop (before @ [l]) False (0, 0, 0) = Inl (e', (a, b, c))
                 \<and> taken_from parse_latency (contains ''p50:'') (ns_section False before) 0 a
                 \<and> taken_from parse_latency (\<lambda>l. \<not> contains ''p50:'' l \<and> contains ''p95:'' l)
                      (ns_section False before) 0 b
                 \<and> taken_from parse_latency
                      (\<lambda>l. \<not> contains ''p50:'' l \<and> \<not> contains ''p95:'' l \<and> contains ''p99:'' l)
                      (ns_section False before) 0 c))"
    if p: "parse_summary (Inr content) = Inl e'" and x: "extract_stats (Inr content) = (a, b, c, d)"
  proof -
    from p obtain q where q: "summary_scan content = Inl (e', q)"
      by (auto simp: parse_summary_def split: sum.splits)
    with x have "q = (a, b, c, d)"
      by (simp add: extract_stats_def extract_stats_run_def)
    with q have "summary_scan content = Inl (e', (a, b, c, d))" by simp
    from summary_scan_raises_at [OF this] obtain before l after where
      s: "py_split newline content = before @ l # after"
      and h: "(contains ''Completed:'' l \<and> parse_completed l = Inl e'
           \<and> completed_loop before 0 = Inr d \<and> a = 0 \<and> b = 0 \<and> c = 0)
        \<or> (completed_loop (py_split newline content) 0 = Inr d
           \<and> parse_latency l = Inl e'
           \<and> latency_loop before False (0, 0, 0) = Inr (a, b, c)
           \<and> latency_loop (before @ [l]) False (0, 0, 0) = Inl (e', (a, b, c)))"
      by blast
    from h show ?thesis
    proof
      assume k: "contains ''Completed:'' l \<and> parse_completed l = Inl e'
           \<and> completed_loop before 0 = Inr d \<and> a = 0 \<and> b = 0 \<and> c = 0"
      then have "taken_from parse_completed (contains ''Completed:'') before 0 d"
        by (simp add: completed_loop_taken)
      with s k show ?thesis by blast
    next
      assume k: "completed_loop (py_split newline content) 0 = Inr d
           \<and> parse_latency l = Inl e'
           \<and> latency_loop before False (0, 0, 0) = Inr (a, b, c)
           \<and> latency_loop (before @ [l]) False (0, 0, 0) = Inl (e', (a, b, c))"
      then have t: "taken_from parse_completed (contains ''Completed:'')
          (py_split newline content) 0 d"
        by (simp add: completed_loop_taken)
      from k have "latency_loop before False (0, 0, 0) = Inr (a, b, c)" by simp
      from latency_loop_taken [OF this] s k t show ?thesis by blast
    qed
  qed
  have 6: "process_dir run_dir (Directory (Some (Inr config)) (Some s)) =
          ([ErrorProcessing run_dir e''], None)"
    if "parse_summary s = Inl e''"
    using that by (simp add: process_dir_def rescan_row_def)
  from 1 2 3 4 5 6 show ?thesis by blast
qed

theorem parser_exceptions_witness:
  "extract_stats_run (Inl OSError) = (Some OSError, (0, 0, 0, 0))
   \<and> parse_summary (Inl OSError) = Inl OSError
   \<and> parse_summary (Inr sample_summary) = Inr (1234, 5678, 9999, 9000)
   \<and> extract_stats_run (Inr sample_summary) = (None, (1234, 5678, 9999, 9000))
   \<and> parse_summary (Inr (''Latency (ns):'' @ newline @ ''p50: abc'' @ newline @ ''p95: 7'')) =
        Inl ValueError
   \<and> fst (extract_stats_run
        (Inr (''Latency (ns):'' @ newline @ ''p50: abc'' @ newline @ ''p95: 7''))) =
        Some ValueError
   \<and> extract_stats (Inr (''Latency (ns):'' @ newline @ ''p50: abc'' @ newline @ ''p95: 7'')) =
        (0, 0, 0, 0)
   \<and> py_split newline (''Latency (ns):'' @ newline @ ''p50: abc'' @ newline @ ''p95: 7'') =
        [''Latency (ns):''] @ ''p50: abc'' # [''p95: 7'']
   \<and> latency_loop [''Latency (ns):''] False (0, 0, 0) = Inr (0, 0, 0)
   \<and> latency_loop ([''Latency (ns):''] @ [''p50: abc'']) False (0, 0, 0) =
        Inl (ValueError, (0, 0, 0))
   \<and> parse_latency ''p95: 7'' = Inr 7
   \<and> (\<exists>before l after.
         py_split newline (''Latency (ns):'' @ newline @ ''p50: abc'' @ newline @ ''p95: 7'') =
           before @ l # after
         \<and> parse_latency l = Inl ValueError
         \<and> latency_loop before False (0, 0, 0) = Inr (0, 0, 0))
   \<and> process_dir ''run_a'' (Directory (Some (Inr (sample_config ''a'')))
        (Some (Inr (''Latency (ns):'' @ newline @ ''p50: abc'' @ newline @ ''p95: 7'')))) =
        ([ErrorProcessing ''run_a'' ValueError], None)"
proof -
  let ?bad = "''Latency (ns):'' @ newline @ ''p50: abc'' @ newline @ ''p95: 7''"
  have x: "extract_stats (Inr ?bad) = (0, 0, 0, 0)"
    using late_p50_stats by (simp only: extract_stats_def snd_conv)
  note t1 = parser_exceptions [of OSError sample_summary "(1234, 5678, 9999, 9000)"
      ValueError 0 0 0 0 "Inr ?bad" ValueError "''run_a''" "sample_config ''a''"]
  note t2 = parser_exceptions [of OSError ?bad "(0, 0, 0, 0)" ValueError 0 0 0 0 "Inr ?bad"
      ValueError "''run_a''" "sample_config ''a''"]
  from t1 sample_summary_parses have
    a: "extract_stats_run (Inl OSError) = (Some OSError, (0, 0, 0, 0))"
    and b: "parse_summary (Inl OSError) = Inl OSError"
    and c: "extract_stats_run (Inr sample_summary) = (None, (1234, 5678, 9999, 9000))"
    by blast+
  from t2 late_p50_raises have
    d: "fst (extract_stats_run (Inr ?bad)) = Some ValueError"
    and e: "process_dir ''run_a'' (Directory (Some (Inr (sample_config ''a''))) (Some (Inr ?bad))) =
        ([ErrorProcessing ''run_a'' ValueError], None)"
    by blast+
  from t2 late_p50_raises x have "\<exists>before l after. py_split newline ?bad = before @ l # after
           \<and> ((contains ''Completed:'' l \<and> parse_completed l = Inl ValueError
                 \<and> completed_loop before 0 = Inr 0
                 \<and> taken_from parse_completed (contains ''Completed:'') before 0 0
                 \<and> (0 :: int) = 0 \<and> (0 :: int) = 0 \<and> (0 :: int) = 0)
              \<or> (completed_loop (py_split newline ?bad) 0 = Inr 0
                 \<and> taken_from parse_completed (contains ''Completed:'')
                      (py_split newline ?bad) 0 0
                 \<and> parse_latency l = Inl ValueError
                 \<and> latency_loop before False (0, 0, 0) = Inr (0, 0, 0)
                 \<and> latency_loop (before @ [l]) False (0, 0, 0) = Inl (ValueError, (0, 0, 0))
                 \<and> taken_from parse_latency (contains ''p50:'') (ns_section False before) 0 0
                 \<and> taken_from parse_latency (\<lambda>l. \<not> contains ''p50:'' l \<and> contains ''p95:'' l)
                      (ns_section False before) 0 0
                 \<and> taken_from parse_latency
                      (\<lambda>l. \<not> contains ''p50:'' l \<and> \<not> contains ''p95:'' l \<and> contains ''p99:'' l)
                      (ns_section False before) 0 0))"
    by blast
  then have f: "\<exists>before l after. py_split newline ?bad = before @ l # after
         \<and> parse_latency l = Inl ValueError
         \<and> latency_loop before False (0, 0, 0) = Inr (0, 0, 0)"
  proof -
    have nc: "\<forall>l\<in>set (py_split newline ?bad). \<not> contains ''Completed:'' l"
      unfolding late_p50_loops by simp
    assume "\<exists>before l after. py_split newline ?bad = before @ l # after
           \<and> ((contains ''Completed:'' l \<and> parse_completed l = Inl ValueError
                 \<and> completed_loop before 0 = Inr 0
                 \<and> taken_from parse_completed (contains ''Completed:'') before 0 0
                 \<and> (0 :: int) = 0 \<and> (0 :: int) = 0 \<and> (0 :: int) = 0)
              \<or> (completed_loop (py_split newline ?bad) 0 = Inr 0
                 \<and> taken_from parse_completed (contains ''Completed:'')
                      (py_split newline ?bad) 0 0
                 \<and> parse_latency l = Inl ValueError
                 \<and> latency_loop before False (0, 0, 0) = Inr (0, 0, 0)
                 \<and> latency_loop (before @ [l]) False (0, 0, 0) = Inl (ValueError, (0, 0, 0))
                 \<and> taken_from parse_latency (contains ''p50:'') (ns_section False before) 0 0
                 \<and> taken_from parse_latency (\<lambda>l. \<not> contains ''p50:'' l \<and> contains ''p95:'' l)
                      (ns_section False before) 0 0
                 \<and> taken_from parse_latency
                      (\<lambda>l. \<not> contains ''p50:'' l \<and> \<not> contains ''p95:'' l \<and> contains ''p99:'' l)
                      (ns_section False before) 0 0))"
    then obtain before l after where
      s: "py_split newline ?bad = before @ l # after"
      and h: "(contains ''Completed:'' l \<and> parse_completed l = Inl ValueError)
        \<or> (parse_latency l = Inl ValueError \<and> latency_loop before False (0, 0, 0) = Inr (0, 0, 0))"
      by blast
    from s nc have "\<not> contains ''Completed:'' l" by simp
    with h s show ?thesis by blast
  qed
  have g: "py_split newline ?bad = [''Latency (ns):''] @ ''p50: abc'' # [''p95: 7'']"
    unfolding late_p50_loops by simp
  from a b c d e f g x sample_summary_parses late_p50_raises late_p50_loops(2-4)
  show ?thesis
    by simp
qed

text \<open>
  The claim as stated, the all-zero tuple on any exception and no exception leaving either
  parser, fails: after a well-formed \<^verbatim>\<open>Completed:\<close> line a malformed \<^verbatim>\<open>p50\<close> line makes
  \<^verbatim>\<open>extract_stats\<close> return \<open>(0, 0, 0, 5)\<close>, and \<^verbatim>\<open>parse_summary\<close> raises.
\<close>

theorem parser_all_zero_counterexample:
  "extract_stats (Inr (''Completed: 5/10'' @ newline @ ''Latency (ns):'' @ newline @
      ''p50: abc'')) = (0, 0, 0, 5)
   \<and> parse_summary (Inr (''Completed: 5/10'' @ newline @ ''Latency (ns):'' @ newline @
      ''p50: abc'')) = Inl ValueError
   \<and> parse_summary (Inl OSError) = Inl OSError"
  using bad_p50_stats bad_p50_raises
  by (simp add: extract_stats_def parse_summary_def)

end
